theory Spec2Isabelle
  imports Main
begin

section \<open>Data model of the synthetics trigger-and-wait engine\<close>

text \<open>
  The enumerations \<open>ExecutionRule\<close> and \<open>ERRORS\<close> live in \<open>./interfaces\<close>. The source
  compares against their members \<open>BLOCKING\<close>, \<open>NON_BLOCKING\<close>, \<open>SKIPPED\<close> and \<open>ENDPOINT\<close>,
  \<open>TIMEOUT\<close>, \<open>TUNNEL\<close>. A result may carry any other error text, which is kept as
  \<open>OTHER_ERROR\<close>.
\<close>

datatype ExecutionRule = BLOCKING | NON_BLOCKING | SKIPPED

datatype ERRORS = ENDPOINT | TIMEOUT | TUNNEL | OTHER_ERROR string

text \<open>
  An optional field of a TypeScript interface is an \<open>option\<close>: \<open>None\<close> is \<open>undefined\<close>.
\<close>

record Device =
  height :: int
  deviceId :: string
  width :: int

record Result =
  device :: "Device option"
  duration :: "int option"
  error :: "ERRORS option"
  errorCode :: "string option"
  eventType :: string
  passed :: "bool option"
  startUrl :: "string option"
  stepDetails :: "string list"
  tunnel :: "bool option"
  unhealthy :: "bool option"

record PollResult =
  dc_id :: int
  result :: Result
  resultID :: string
  timestamp :: int

record CiOptions =
  executionRule :: "ExecutionRule option"

record TestOptions =
  ci :: "CiOptions option"

record InternalTest =
  type :: string
  subtype :: "string option"
  request_url :: string
  options :: "TestOptions option"
  suite :: "string option"

text \<open>
  A \<open>ConfigOverride\<close>: the three options the engine itself reads, and the other own keys
  of the object with their values kept opaque (\<open>otherOptions\<close>, in key order).
\<close>

record ConfigOverride =
  executionRule :: "ExecutionRule option"
  pollingTimeout :: "int option"
  startUrl :: "string option"
  otherOptions :: "(string \<times> string) list"

record Summary =
  criticalErrors :: nat
  failed :: nat
  passed :: nat
  skipped :: nat
  testsNotFound :: "string list"
  timedOut :: nat

section \<open>Result classifier\<close>

text \<open>
  \<open>result.unhealthy || result.error === ERRORS.ENDPOINT\<close>: an absent \<open>unhealthy\<close> is falsy.
\<close>

definition isCriticalError :: "Result \<Rightarrow> bool" where
  "isCriticalError r = (unhealthy r = Some True \<or> Result.error r = Some ENDPOINT)"

definition hasResultPassed :: "Result \<Rightarrow> bool \<Rightarrow> bool \<Rightarrow> bool" where
  "hasResultPassed r failOnCriticalErrors failOnTimeout =
     (if isCriticalError r \<and> \<not> failOnCriticalErrors then True
      else if Result.error r = Some TIMEOUT \<and> \<not> failOnTimeout then True
      else (case Result.passed r of
              Some b \<Rightarrow> b
            | None \<Rightarrow> (case errorCode r of Some c \<Rightarrow> False | None \<Rightarrow> True)))"

definition hasTestSucceeded :: "PollResult list \<Rightarrow> bool \<Rightarrow> bool \<Rightarrow> bool" where
  "hasTestSucceeded results failOnCriticalErrors failOnTimeout =
     list_all (\<lambda>pollResult. hasResultPassed (result pollResult) failOnCriticalErrors failOnTimeout)
       results"

section \<open>Reporter fan-out\<close>

text \<open>
  A hook of a member reporter is a method with effects of its own, which returns or
  throws. It is a function from its argument and the state of the world before the call
  to a completion: the state after the call, and the exception when it threw.
\<close>

datatype ('x, 'w) completion = Returns 'w | Throws 'x 'w

fun world :: "('x, 'w) completion \<Rightarrow> 'w" where
  "world (Returns w) = w"
| "world (Throws x w) = w"

fun threw :: "('x, 'w) completion \<Rightarrow> bool" where
  "threw (Returns w) = False"
| "threw (Throws x w) = True"

type_synonym ('a, 'x, 'w) hook = "'a \<Rightarrow> 'w \<Rightarrow> ('x, 'w) completion"

text \<open>
  A \<open>Reporter\<close> implements any subset of the hooks: a hook that is not a function is
  \<open>None\<close>. The arguments of \<open>testEnd\<close> and \<open>testTrigger\<close> are tuples, in the order of the
  parameters.
\<close>

record ('x, 'w) Reporter =
  error :: "(string, 'x, 'w) hook option"
  initErrors :: "(string list, 'x, 'w) hook option"
  log :: "(string, 'x, 'w) hook option"
  reportStart :: "(int, 'x, 'w) hook option"
  runEnd :: "(Summary, 'x, 'w) hook option"
  testEnd ::
    "(InternalTest \<times> PollResult list \<times> string \<times> (int \<times> string) list \<times> bool \<times> bool,
      'x, 'w) hook option"
  testTrigger ::
    "(InternalTest \<times> string \<times> ExecutionRule \<times> ConfigOverride option, 'x, 'w) hook option"
  testWait :: "(InternalTest, 'x, 'w) hook option"
  testsWait :: "(InternalTest list, 'x, 'w) hook option"

record ('x, 'w) MainReporter =
  error :: "(string, 'x, 'w) hook"
  initErrors :: "(string list, 'x, 'w) hook"
  log :: "(string, 'x, 'w) hook"
  reportStart :: "(int, 'x, 'w) hook"
  runEnd :: "(Summary, 'x, 'w) hook"
  testEnd ::
    "(InternalTest \<times> PollResult list \<times> string \<times> (int \<times> string) list \<times> bool \<times> bool,
      'x, 'w) hook"
  testTrigger ::
    "(InternalTest \<times> string \<times> ExecutionRule \<times> ConfigOverride option, 'x, 'w) hook"
  testWait :: "(InternalTest, 'x, 'w) hook"
  testsWait :: "(InternalTest list, 'x, 'w) hook"

text \<open>
  The loop every hook of the composite runs:
  \<open>for (const reporter of reporters) { if (typeof reporter.h === 'function') { reporter.h(args) } }\<close>.
  There is no \<open>try\<close> around the call, so an exception of a member leaves the loop.
\<close>

fun forwardHook ::
  "('r \<Rightarrow> ('a, 'x, 'w) hook option) \<Rightarrow> 'r list \<Rightarrow> ('a, 'x, 'w) hook" where
  "forwardHook h [] args w = Returns w"
| "forwardHook h (reporter # reporters) args w =
     (case h reporter of
        None \<Rightarrow> forwardHook h reporters args w
      | Some f \<Rightarrow>
          (case f args w of
             Returns w' \<Rightarrow> forwardHook h reporters args w'
           | Throws x w' \<Rightarrow> Throws x w'))"

definition getReporter :: "('x, 'w) Reporter list \<Rightarrow> ('x, 'w) MainReporter" where
  "getReporter reporters =
     \<lparr>MainReporter.error = forwardHook Reporter.error reporters,
      MainReporter.initErrors = forwardHook Reporter.initErrors reporters,
      MainReporter.log = forwardHook Reporter.log reporters,
      MainReporter.reportStart = forwardHook Reporter.reportStart reporters,
      MainReporter.runEnd = forwardHook Reporter.runEnd reporters,
      MainReporter.testEnd = forwardHook Reporter.testEnd reporters,
      MainReporter.testTrigger = forwardHook Reporter.testTrigger reporters,
      MainReporter.testWait = forwardHook Reporter.testWait reporters,
      MainReporter.testsWait = forwardHook Reporter.testsWait reporters\<rparr>"

text \<open>
  The hooks the members of a list implement, in registration order.
\<close>

definition implementedHooks ::
  "('r \<Rightarrow> ('a, 'x, 'w) hook option) \<Rightarrow> 'r list \<Rightarrow> ('a, 'x, 'w) hook list" where
  "implementedHooks h reporters = List.map_filter h reporters"

section \<open>Execution rule\<close>

fun getStrictestExecutionRule :: "ExecutionRule \<Rightarrow> ExecutionRule option \<Rightarrow> ExecutionRule" where
  "getStrictestExecutionRule configRule testRule =
     (if configRule = SKIPPED \<or> testRule = Some SKIPPED then SKIPPED
      else if configRule = NON_BLOCKING \<or> testRule = Some NON_BLOCKING then NON_BLOCKING
      else if configRule = BLOCKING \<or> testRule = Some BLOCKING then BLOCKING
      else BLOCKING)"

text \<open>\<open>test.options?.ci?.executionRule\<close>\<close>

definition testExecutionRule :: "InternalTest \<Rightarrow> ExecutionRule option" where
  "testExecutionRule test =
     (case options test of
        None \<Rightarrow> None
      | Some opts \<Rightarrow> (case ci opts of None \<Rightarrow> None | Some c \<Rightarrow> CiOptions.executionRule c))"

text \<open>
  \<open>configOverride && configOverride.executionRule\<close>: the members of the enumeration are
  non-empty strings, hence truthy, so the test fails only for an absent override or an
  absent rule.
\<close>

definition overrideExecutionRule :: "ConfigOverride option \<Rightarrow> ExecutionRule option" where
  "overrideExecutionRule configOverride =
     (case configOverride of None \<Rightarrow> None | Some c \<Rightarrow> ConfigOverride.executionRule c)"

definition getExecutionRule :: "InternalTest \<Rightarrow> ConfigOverride option \<Rightarrow> ExecutionRule" where
  "getExecutionRule test configOverride =
     (case overrideExecutionRule configOverride of
        Some r \<Rightarrow> getStrictestExecutionRule r (testExecutionRule test)
      | None \<Rightarrow> (case testExecutionRule test of Some r \<Rightarrow> r | None \<Rightarrow> BLOCKING))"

text \<open>
  The order of the specification, \<open>skipped > non_blocking > blocking\<close>, as a rank, and the
  maximum of two rules under it. An undefined rule counts as \<open>blocking\<close>.
\<close>

fun strictness :: "ExecutionRule \<Rightarrow> nat" where
  "strictness BLOCKING = 0"
| "strictness NON_BLOCKING = 1"
| "strictness SKIPPED = 2"

definition strictest_spec :: "ExecutionRule \<Rightarrow> ExecutionRule \<Rightarrow> ExecutionRule" where
  "strictest_spec a b = (if strictness a \<le> strictness b then b else a)"

fun orBlocking :: "ExecutionRule option \<Rightarrow> ExecutionRule" where
  "orBlocking None = BLOCKING"
| "orBlocking (Some r) = r"

lemma strictness_inj: "strictness a = strictness b \<Longrightarrow> a = b"
  by (cases a; cases b) simp_all

lemma strictest_spec_is_max:
  "strictness (strictest_spec a b) = max (strictness a) (strictness b)"
  by (simp add: strictest_spec_def max_def)

text \<open>
  C2. \<open>hasResultPassed\<close> follows the five rules of the classifier, in their order:
  a critical error (unhealthy, or error ENDPOINT) passes when \<open>failOnCriticalErrors\<close> is
  false; otherwise a TIMEOUT passes when \<open>failOnTimeout\<close> is false; otherwise the
  \<open>passed\<close> field decides when it is defined; otherwise a defined \<open>errorCode\<close> fails;
  otherwise the result passes.
\<close>

theorem hasResultPassed_rules:
  "((unhealthy r = Some True \<or> Result.error r = Some ENDPOINT) \<and> \<not> foce
      \<longrightarrow> hasResultPassed r foce fot)
   \<and> (\<not> ((unhealthy r = Some True \<or> Result.error r = Some ENDPOINT) \<and> \<not> foce)
      \<longrightarrow>
      (Result.error r = Some TIMEOUT \<and> \<not> fot \<longrightarrow> hasResultPassed r foce fot)
      \<and> (\<not> (Result.error r = Some TIMEOUT \<and> \<not> fot) \<longrightarrow>
           (\<forall>b. Result.passed r = Some b \<longrightarrow> hasResultPassed r foce fot = b)
           \<and> (Result.passed r = None \<longrightarrow>
                (errorCode r \<noteq> None \<longrightarrow> \<not> hasResultPassed r foce fot)
                \<and> (errorCode r = None \<longrightarrow> hasResultPassed r foce fot))))"
  by (auto simp: hasResultPassed_def isCriticalError_def split: option.splits)

text \<open>
  A result that timed out and carries \<open>passed = false\<close>, classified with
  \<open>failOnCriticalErrors = true\<close> and \<open>failOnTimeout = false\<close>: rule 2 applies.
\<close>

definition timedOutResult :: Result where
  "timedOutResult =
     \<lparr>device = None, duration = Some 0, Result.error = Some TIMEOUT, errorCode = None,
      eventType = ''finished'', Result.passed = Some False, Result.startUrl = Some [], stepDetails = [],
      tunnel = Some False, unhealthy = None\<rparr>"

theorem hasResultPassed_rules_witness:
  "Result.error timedOutResult = Some TIMEOUT \<and> unhealthy timedOutResult = None
   \<and> hasResultPassed timedOutResult True False"
  using hasResultPassed_rules [of timedOutResult True False]
  by (simp add: timedOutResult_def)

text \<open>
  C3. Whatever the test's \<open>options.ci.executionRule\<close> and the override's
  \<open>executionRule\<close> are (each one of the three rules, or undefined), the resolved rule is
  the maximum of the two under \<open>skipped > non_blocking > blocking\<close>, an undefined rule
  counting as \<open>blocking\<close>.
\<close>

theorem getExecutionRule_strictest:
  "getExecutionRule test configOverride =
     strictest_spec (orBlocking (overrideExecutionRule configOverride))
       (orBlocking (testExecutionRule test))
   \<and> strictness (getExecutionRule test configOverride) =
     max (strictness (orBlocking (overrideExecutionRule configOverride)))
       (strictness (orBlocking (testExecutionRule test)))"
proof -
  obtain a b where ab: "overrideExecutionRule configOverride = a" "testExecutionRule test = b"
    by simp
  have "getExecutionRule test configOverride = strictest_spec (orBlocking a) (orBlocking b)"
  proof (cases a)
    case None
    then show ?thesis
      using ab by (cases b) (simp_all add: getExecutionRule_def strictest_spec_def)
  next
    case (Some r)
    then show ?thesis
      using ab
      by (cases r; cases b; cases "the b")
        (simp_all add: getExecutionRule_def strictest_spec_def)
  qed
  then show ?thesis
    using ab by (simp add: strictest_spec_is_max)
qed

text \<open>
  Scenario S1 of the specification: a \<open>blocking\<close> test with a \<open>non_blocking\<close> override
  resolves to \<open>non_blocking\<close>.
\<close>

definition blockingTest :: InternalTest where
  "blockingTest =
     \<lparr>type = ''api'', subtype = Some ''http'', request_url = ''https://example.org/'',
      options = Some \<lparr>ci = Some \<lparr>CiOptions.executionRule = Some BLOCKING\<rparr>\<rparr>,
      suite = None\<rparr>"

definition nonBlockingOverride :: ConfigOverride where
  "nonBlockingOverride =
     \<lparr>ConfigOverride.executionRule = Some NON_BLOCKING, pollingTimeout = None,
      ConfigOverride.startUrl = None, otherOptions = []\<rparr>"

theorem getExecutionRule_strictest_witness:
  "getExecutionRule blockingTest (Some nonBlockingOverride) = NON_BLOCKING"
  using getExecutionRule_strictest [of blockingTest "Some nonBlockingOverride"]
  by (simp add: blockingTest_def nonBlockingOverride_def overrideExecutionRule_def
      testExecutionRule_def strictest_spec_def)

text \<open>
  C6. Changing \<open>failOnCriticalErrors\<close> or \<open>failOnTimeout\<close> from true to false, the other
  flag held fixed, never turns a passing verdict into a failing one.
\<close>

theorem hasResultPassed_monotone:
  "(hasResultPassed r True fot \<longrightarrow> hasResultPassed r False fot)
   \<and> (hasResultPassed r foce True \<longrightarrow> hasResultPassed r foce False)"
  by (auto simp: hasResultPassed_def isCriticalError_def split: option.splits)

text \<open>
  An unhealthy result with \<open>passed = false\<close> fails under \<open>failOnCriticalErrors = true\<close>
  and passes once the flag is false; a passing result stays passing.
\<close>

definition unhealthyResult :: Result where
  "unhealthyResult =
     \<lparr>device = None, duration = Some 12, Result.error = None, errorCode = Some ''UNHEALTHY'',
      eventType = ''finished'', Result.passed = Some False, Result.startUrl = None, stepDetails = [],
      tunnel = None, unhealthy = Some True\<rparr>"

definition passedResult :: Result where
  "passedResult =
     \<lparr>device = None, duration = Some 12, Result.error = None, errorCode = None,
      eventType = ''finished'', Result.passed = Some True, Result.startUrl = None, stepDetails = [],
      tunnel = None, unhealthy = None\<rparr>"

theorem hasResultPassed_monotone_witness:
  "hasResultPassed passedResult True True \<and> hasResultPassed passedResult False True
   \<and> hasResultPassed passedResult True False
   \<and> \<not> hasResultPassed unhealthyResult True True
   \<and> hasResultPassed unhealthyResult False True"
  using hasResultPassed_monotone [of passedResult True True]
    hasResultPassed_monotone [of unhealthyResult True True]
  by (simp add: hasResultPassed_def isCriticalError_def passedResult_def unhealthyResult_def)


section \<open>What the fan-out loop delivers\<close>

lemma forwardHook_Returns:
  "forwardHook h reporters args w = Returns w' \<Longrightarrow>
   w' = foldl (\<lambda>v f. world (f args v)) w (implementedHooks h reporters)"
  by (induction reporters arbitrary: w)
    (auto simp: implementedHooks_def List.map_filter_simps split: option.splits completion.splits)

lemma forwardHook_no_throw:
  "\<forall>f \<in> set (implementedHooks h reporters). \<forall>v. \<not> threw (f args v) \<Longrightarrow>
   forwardHook h reporters args w =
     Returns (foldl (\<lambda>v f. world (f args v)) w (implementedHooks h reporters))"
proof (induction reporters arbitrary: w)
  case Nil
  then show ?case by (simp add: implementedHooks_def List.map_filter_simps)
next
  case (Cons r rs)
  show ?case
  proof (cases "h r")
    case None
    then show ?thesis using Cons by (simp add: implementedHooks_def List.map_filter_simps)
  next
    case (Some f)
    then have nt: "\<not> threw (f args w)" and
      rest: "\<forall>f \<in> set (implementedHooks h rs). \<forall>v. \<not> threw (f args v)"
      using Cons.prems by (simp_all add: implementedHooks_def List.map_filter_simps)
    then obtain w1 where w1: "f args w = Returns w1" by (cases "f args w") simp_all
    show ?thesis using Some w1 Cons.IH [OF rest, of w1]
      by (simp add: implementedHooks_def List.map_filter_simps)
  qed
qed

lemma forwardHook_throw:
  "forwardHook h pre args w = Returns v \<Longrightarrow> h r = Some f \<Longrightarrow> f args v = Throws x v' \<Longrightarrow>
   forwardHook h (pre @ r # post) args w = Throws x v'"
  by (induction pre arbitrary: w) (auto split: option.splits completion.splits)

text \<open>
  An exception that leaves the loop is the exception of a member the loop called: the
  members before it returned, and it threw on the state they left.
\<close>

lemma forwardHook_Throws_called:
  "forwardHook h rs args w = Throws x v' \<Longrightarrow>
   \<exists>pre r post f v. rs = pre @ r # post \<and> h r = Some f
      \<and> forwardHook h pre args w = Returns v \<and> f args v = Throws x v'"
proof (induction rs arbitrary: w)
  case Nil
  then show ?case by simp
next
  case (Cons r rs)
  show ?case
  proof (cases "h r")
    case None
    then have "forwardHook h rs args w = Throws x v'" using Cons.prems by simp
    from Cons.IH [OF this] obtain pre r' post f v where
      d: "rs = pre @ r' # post" "h r' = Some f" "forwardHook h pre args w = Returns v"
         "f args v = Throws x v'"
      by blast
    have "r # rs = (r # pre) @ r' # post \<and> h r' = Some f
        \<and> forwardHook h (r # pre) args w = Returns v \<and> f args v = Throws x v'"
      using d None by simp
    then show ?thesis by blast
  next
    case (Some g)
    show ?thesis
    proof (cases "g args w")
      case (Returns w1)
      then have "forwardHook h rs args w1 = Throws x v'" using Cons.prems Some by simp
      from Cons.IH [OF this] obtain pre r' post f v where
        d: "rs = pre @ r' # post" "h r' = Some f" "forwardHook h pre args w1 = Returns v"
           "f args v = Throws x v'"
        by blast
      have "r # rs = (r # pre) @ r' # post \<and> h r' = Some f
          \<and> forwardHook h (r # pre) args w = Returns v \<and> f args v = Throws x v'"
        using d Some Returns by simp
      then show ?thesis by blast
    next
      case (Throws y w1)
      then have "r # rs = [] @ r # rs \<and> h r = Some g
          \<and> forwardHook h [] args w = Returns w \<and> g args w = Throws x v'"
        using Cons.prems Some by simp
      then show ?thesis by blast
    qed
  qed
qed

text \<open>
  The loop returns exactly when no hook it calls throws on the state it is called on,
  and then every implemented hook has been called, in registration order.
\<close>

lemma forwardHook_Returns_iff:
  "forwardHook h rs args w = Returns w' \<longleftrightarrow>
     (\<forall>pre r post f v. rs = pre @ r # post \<and> h r = Some f
          \<and> forwardHook h pre args w = Returns v \<longrightarrow> \<not> threw (f args v))
     \<and> w' = foldl (\<lambda>v f. world (f args v)) w (implementedHooks h rs)"
proof
  assume ret: "forwardHook h rs args w = Returns w'"
  have "\<not> threw (f args v)"
    if "rs = pre @ r # post" "h r = Some f" "forwardHook h pre args w = Returns v"
    for pre r post f v
  proof
    assume "threw (f args v)"
    then obtain x v' where "f args v = Throws x v'" by (cases "f args v") simp_all
    then have "forwardHook h (pre @ r # post) args w = Throws x v'"
      using forwardHook_throw [of h pre args w v r f x v' post] that by simp
    then show False using ret that by simp
  qed
  then show "(\<forall>pre r post f v. rs = pre @ r # post \<and> h r = Some f
          \<and> forwardHook h pre args w = Returns v \<longrightarrow> \<not> threw (f args v))
     \<and> w' = foldl (\<lambda>v f. world (f args v)) w (implementedHooks h rs)"
    using forwardHook_Returns [OF ret] by blast
next
  assume a: "(\<forall>pre r post f v. rs = pre @ r # post \<and> h r = Some f
          \<and> forwardHook h pre args w = Returns v \<longrightarrow> \<not> threw (f args v))
     \<and> w' = foldl (\<lambda>v f. world (f args v)) w (implementedHooks h rs)"
  show "forwardHook h rs args w = Returns w'"
  proof (cases "forwardHook h rs args w")
    case (Returns w1)
    then show ?thesis using forwardHook_Returns [OF Returns] a by simp
  next
    case (Throws x v')
    from forwardHook_Throws_called [OF this] obtain pre r post f v where
      d: "rs = pre @ r # post" "h r = Some f" "forwardHook h pre args w = Returns v"
         "f args v = Throws x v'"
      by blast
    then have "\<not> threw (f args v)" using a by blast
    then show ?thesis using d by simp
  qed
qed

lemma forwardHook_Throws_iff:
  "forwardHook h rs args w = Throws x v' \<longleftrightarrow>
     (\<exists>pre r post f v. rs = pre @ r # post \<and> h r = Some f
        \<and> forwardHook h pre args w = Returns v \<and> f args v = Throws x v')"
  using forwardHook_Throws_called [of h rs args w x v'] forwardHook_throw [of h _ args w _ _ _ x v']
  by blast

text \<open>
  Member reporters over a world that is the list of lines written so far: one that
  implements no hook, one that writes a line on \<open>log\<close>, one whose \<open>log\<close> throws, and one
  whose \<open>log\<close> throws only while nothing has been written.
\<close>

definition silentReporter :: "(string, string list) Reporter" where
  "silentReporter =
     \<lparr>Reporter.error = None, Reporter.initErrors = None, Reporter.log = None,
      Reporter.reportStart = None, Reporter.runEnd = None, Reporter.testEnd = None,
      Reporter.testTrigger = None, Reporter.testWait = None, Reporter.testsWait = None\<rparr>"

definition writingReporter :: "string \<Rightarrow> (string, string list) Reporter" where
  "writingReporter name =
     silentReporter\<lparr>Reporter.log := Some (\<lambda>msg w. Returns (w @ [name @ '': '' @ msg]))\<rparr>"

definition throwingReporter :: "(string, string list) Reporter" where
  "throwingReporter = silentReporter\<lparr>Reporter.log := Some (\<lambda>msg w. Throws ''boom'' w)\<rparr>"

definition appendingReporter :: "(string, string list) Reporter" where
  "appendingReporter =
     silentReporter\<lparr>Reporter.log :=
       Some (\<lambda>msg w. if w = [] then Throws ''no header'' w else Returns (w @ [''file: '' @ msg]))\<rparr>"

text \<open>
  C9, as the claim states it, fails: the composite has no isolation of a dispatch. With a
  member whose \<open>log\<close> throws registered before a member that writes, the exception leaves
  the composite's \<open>log\<close> and the second member, which implements the hook, has written
  nothing.
\<close>

theorem getReporter_throw_counterexample:
  "Reporter.log (writingReporter ''console'') \<noteq> None
   \<and> MainReporter.log (getReporter [throwingReporter, writingReporter ''console'']) ''hello'' []
     = Throws ''boom'' []"
  by (simp add: getReporter_def throwingReporter_def writingReporter_def silentReporter_def)

text \<open>
  C9, amended. Every hook of the composite built by \<open>getReporter\<close> is the loop
  \<open>forwardHook\<close> over the members, which skips the members lacking the hook and calls the
  implemented hooks in registration order, each on the state its predecessor left. A
  member \<open>r\<close> is called in a run when the members registered before it, \<open>pre\<close>, have
  returned; \<open>v\<close> is the state they left.

  \<^item> The composite returns exactly when no hook called in the run throws, and then the
    final state is that of all the implemented hooks, called in registration order.
  \<^item> The composite throws exactly when a hook called in the run throws: the exception
    and the state are those of that call, so the members registered after it are not
    called.
\<close>

theorem getReporter_forwards_in_order:
  "(forwardHook h rs args w = Returns w' \<longleftrightarrow>
      (\<forall>pre r post f v. rs = pre @ r # post \<and> h r = Some f
           \<and> forwardHook h pre args w = Returns v \<longrightarrow> \<not> threw (f args v))
      \<and> w' = foldl (\<lambda>v f. world (f args v)) w (implementedHooks h rs))
   \<and> (forwardHook h rs args w = Throws x v' \<longleftrightarrow>
      (\<exists>pre r post f v. rs = pre @ r # post \<and> h r = Some f
         \<and> forwardHook h pre args w = Returns v \<and> f args v = Throws x v'))
   \<and> MainReporter.error (getReporter reporters) = forwardHook Reporter.error reporters
   \<and> MainReporter.initErrors (getReporter reporters) = forwardHook Reporter.initErrors reporters
   \<and> MainReporter.log (getReporter reporters) = forwardHook Reporter.log reporters
   \<and> MainReporter.reportStart (getReporter reporters) = forwardHook Reporter.reportStart reporters
   \<and> MainReporter.runEnd (getReporter reporters) = forwardHook Reporter.runEnd reporters
   \<and> MainReporter.testEnd (getReporter reporters) = forwardHook Reporter.testEnd reporters
   \<and> MainReporter.testTrigger (getReporter reporters) = forwardHook Reporter.testTrigger reporters
   \<and> MainReporter.testWait (getReporter reporters) = forwardHook Reporter.testWait reporters
   \<and> MainReporter.testsWait (getReporter reporters) = forwardHook Reporter.testsWait reporters"
proof -
  note ret = forwardHook_Returns_iff [of h rs args w w']
  note thr = forwardHook_Throws_iff [of h rs args w x v']
  show ?thesis
    by (intro conjI) (rule ret, rule thr, simp_all add: getReporter_def)
qed

text \<open>
  A member without hooks, then \<open>console\<close>, then the member that throws on an empty log:
  it is called after \<open>console\<close> has written, so no called hook throws and both lines are
  written, in this order, although the last hook would throw on the initial state. With
  the throwing member between \<open>console\<close> and \<open>junit\<close>, \<open>console\<close> has written and \<open>junit\<close>
  has not.
\<close>

theorem getReporter_forwards_in_order_witness:
  "implementedHooks Reporter.log
      [silentReporter, writingReporter ''console'', appendingReporter] \<noteq> []
   \<and> threw (the (Reporter.log appendingReporter) ''hello'' [])
   \<and> forwardHook Reporter.log
      [silentReporter, writingReporter ''console'', appendingReporter] ''hello'' []
     = Returns [''console: hello'', ''file: hello'']
   \<and> MainReporter.log
      (getReporter [silentReporter, writingReporter ''console'', throwingReporter,
         writingReporter ''junit'']) ''hello'' []
     = Throws ''boom'' [''console: hello'']"
proof -
  let ?rs = "[silentReporter, writingReporter ''console'', appendingReporter]"
  let ?ms = "[silentReporter, writingReporter ''console'', throwingReporter,
         writingReporter ''junit'']"
  have called: "\<forall>pre r post f v. ?rs = pre @ r # post \<and> Reporter.log r = Some f
      \<and> forwardHook Reporter.log pre ''hello'' [] = Returns v \<longrightarrow> \<not> threw (f ''hello'' v)"
    by (auto simp: Cons_eq_append_conv append_eq_Cons_conv
        appendingReporter_def writingReporter_def silentReporter_def)
  have final: "[''console: hello'', ''file: hello'']
      = foldl (\<lambda>v f. world (f ''hello'' v)) [] (implementedHooks Reporter.log ?rs)"
    by (simp add: implementedHooks_def List.map_filter_simps
        appendingReporter_def writingReporter_def silentReporter_def)
  have thrower: "\<exists>pre r post f v. ?ms = pre @ r # post \<and> Reporter.log r = Some f
      \<and> forwardHook Reporter.log pre ''hello'' [] = Returns v
      \<and> f ''hello'' v = Throws ''boom'' [''console: hello'']"
    by (rule exI [of _ "[silentReporter, writingReporter ''console'']"],
        rule exI [of _ throwingReporter], rule exI [of _ "[writingReporter ''junit'']"],
        rule exI [of _ "\<lambda>msg w. Throws ''boom'' w"], rule exI [of _ "[''console: hello'']"])
      (simp add: throwingReporter_def writingReporter_def silentReporter_def)
  have returns: "forwardHook Reporter.log ?rs ''hello'' []
      = Returns [''console: hello'', ''file: hello'']"
    using getReporter_forwards_in_order
      [where h = Reporter.log and rs = ?rs and args = "''hello''" and w = "[]"
         and w' = "[''console: hello'', ''file: hello'']"]
      called final by blast
  have throws: "MainReporter.log (getReporter ?ms) ''hello'' []
      = Throws ''boom'' [''console: hello'']"
    using getReporter_forwards_in_order
      [where h = Reporter.log and rs = ?ms and args = "''hello''" and w = "[]"
         and x = "''boom''" and v' = "[''console: hello'']" and reporters = ?ms]
      thrower by simp
  show ?thesis
    using returns throws
    by (simp add: implementedHooks_def List.map_filter_simps
        appendingReporter_def writingReporter_def silentReporter_def)
qed

section \<open>Trigger dispatcher\<close>

record TestPayload =
  executionRule :: ExecutionRule
  public_id :: string
  pollingTimeout :: "int option"
  startUrl :: "string option"
  overrides :: "(string \<times> string) list"

record TriggerResponse =
  device :: string
  location :: int
  public_id :: string
  result_id :: string

record Trigger =
  locations :: "(int \<times> string) list"
  results :: "TriggerResponse list"
  triggered_check_ids :: "string list"

record 'm SyntheticsMetadata =
  ciMetadata :: 'm
  trigger_app :: string

record 'm Payload =
  tests :: "TestPayload list"
  metadata :: "'m SyntheticsMetadata option"

text \<open>
  What a call of the backend client rejects with: an error of the HTTP library, which
  carries a \<open>response\<close> only when the server answered (a refused connection or a timeout
  of the request has none).
\<close>

record HttpResponse =
  status :: "int option"

record Failure =
  response :: "HttpResponse option"
  message :: string

text \<open>
  The exceptions of the engine: a failure of the backend client thrown on unchanged, the
  \<open>EndpointError\<close> of \<open>./api\<close> with its message and status, a plain \<open>Error\<close>, and the
  \<open>TypeError\<close> of reading a property of \<open>undefined\<close>.
\<close>

datatype exn =
  Rethrown Failure
| EndpointError string "int option"
| Error string
| TypeError string

text \<open>\<open>xs.join(sep)\<close>\<close>

fun join :: "string \<Rightarrow> string list \<Rightarrow> string" where
  "join sep [] = []"
| "join sep [x] = x"
| "join sep (x # y # ys) = x @ sep @ join sep (y # ys)"

text \<open>
  \<open>runTests\<close>. The backend call \<open>api.triggerTests\<close>, the helper \<open>formatBackendErrors\<close> of
  \<open>./api\<close>, the result of \<open>getCIMetadata()\<close> and the current value of the module variable
  \<open>ciTriggerApp\<close> are parameters. In the handler, \<open>e.response.status\<close> is read with no
  guard: when \<open>e.response\<close> is \<open>undefined\<close> the read throws a \<open>TypeError\<close> and the
  \<open>EndpointError\<close> is never built.
\<close>

definition runTests ::
  "('m Payload \<Rightarrow> Failure + Trigger) \<Rightarrow> (Failure \<Rightarrow> string) \<Rightarrow> 'm \<Rightarrow> string \<Rightarrow>
   TestPayload list \<Rightarrow> exn + Trigger" where
  "runTests triggerTests formatBackendErrors ciMeta ciTriggerApp testsToTrigger =
     (let payload = \<lparr>tests = testsToTrigger, metadata = None\<rparr>;
          syntheticsMetadata = \<lparr>ciMetadata = ciMeta, trigger_app = ciTriggerApp\<rparr>;
          payload = payload\<lparr>metadata := Some syntheticsMetadata\<rparr>
      in case triggerTests payload of
           Inr trigger \<Rightarrow> Inr trigger
         | Inl e \<Rightarrow>
             (let errorMessage = formatBackendErrors e;
                  testIds = join '','' (map TestPayload.public_id testsToTrigger)
              in case response e of
                   None \<Rightarrow> Inl (TypeError ''Cannot read property status of undefined'')
                 | Some r \<Rightarrow>
                     Inl (EndpointError
                       (''['' @ testIds @ ''] Failed to trigger tests: '' @ errorMessage
                          @ [CHR 0x0A])
                       (status r))))"

text \<open>
  For a failure that carries a response, the wrapping is as the specification says: one
  \<open>EndpointError\<close> whose message starts with the submitted public ids, joined by commas,
  and whose status is that of the response.
\<close>

lemma runTests_wraps_failure_with_response:
  "triggerTests \<lparr>tests = ts, metadata = Some \<lparr>ciMetadata = m, trigger_app = app\<rparr>\<rparr> = Inl e \<Longrightarrow>
   response e = Some r \<Longrightarrow>
   runTests triggerTests fmt m app ts =
     Inl (EndpointError
       (''['' @ join '','' (map TestPayload.public_id ts) @ ''] Failed to trigger tests: ''
          @ fmt e @ [CHR 0x0A])
       (status r))"
  by (simp add: runTests_def)

text \<open>
  Two payloads, and a failure of the backend call that has no response: the connection
  was refused.
\<close>

definition refusedConnection :: Failure where
  "refusedConnection = \<lparr>response = None, message = ''connect ECONNREFUSED''\<rparr>"

definition twoPayloads :: "TestPayload list" where
  "twoPayloads =
     [\<lparr>TestPayload.executionRule = BLOCKING, TestPayload.public_id = ''abc-def-ghi'',
       TestPayload.pollingTimeout = None, TestPayload.startUrl = None, overrides = []\<rparr>,
      \<lparr>TestPayload.executionRule = NON_BLOCKING, TestPayload.public_id = ''jkl-mno-pqr'',
       TestPayload.pollingTimeout = None, TestPayload.startUrl = None, overrides = []\<rparr>]"

text \<open>
  C8, evaluated where it fails. The two payloads are submitted and the backend call
  rejects with the failure that has no response. \<open>runTests\<close> throws a \<open>TypeError\<close>: no
  wrapping error, and no public id in what is thrown.
\<close>

theorem runTests_failure_without_response:
  "runTests (\<lambda>payload. Inl refusedConnection) message () ''npm_package'' twoPayloads
     = Inl (TypeError ''Cannot read property status of undefined'')"
  by (simp add: runTests_def refusedConnection_def)

section \<open>Git metadata supplied by the user\<close>

text \<open>
  The keys of the emitted object are the constants of \<open>./tags\<close>; they are kept as an
  enumeration.
\<close>

datatype GitTag =
  GIT_REPOSITORY_URL | GIT_BRANCH | GIT_SHA | GIT_TAG | GIT_COMMIT_MESSAGE
| GIT_COMMIT_COMMITTER_DATE | GIT_COMMIT_COMMITTER_EMAIL | GIT_COMMIT_COMMITTER_NAME
| GIT_COMMIT_AUTHOR_DATE | GIT_COMMIT_AUTHOR_EMAIL | GIT_COMMIT_AUTHOR_NAME

text \<open>\<open>s.startsWith(p)\<close> and \<open>s.includes(p)\<close> on strings.\<close>

fun startsWith :: "string \<Rightarrow> string \<Rightarrow> bool" where
  "startsWith s [] = True"
| "startsWith [] (p # ps) = False"
| "startsWith (c # cs) (p # ps) = (c = p \<and> startsWith cs ps)"

fun includesStr :: "string \<Rightarrow> string \<Rightarrow> bool" where
  "includesStr [] p = (p = [])"
| "includesStr (c # cs) p = (startsWith (c # cs) p \<or> includesStr cs p)"

text \<open>A string of the environment is truthy when it is defined and not empty.\<close>

definition truthy :: "string option \<Rightarrow> bool" where
  "truthy v = (case v of None \<Rightarrow> False | Some s \<Rightarrow> s \<noteq> [])"

text \<open>
  Modelled from the spec: \<open>removeEmptyValues\<close> of \<open>./utils\<close> is not among the sources. The
  specification says that empty-string values are dropped before emission; an undefined
  value has nothing to emit either.
\<close>

fun removeEmptyValues :: "('k \<times> string option) list \<Rightarrow> ('k \<times> string) list" where
  "removeEmptyValues [] = []"
| "removeEmptyValues ((k, v) # kvs) =
     (case v of
        None \<Rightarrow> removeEmptyValues kvs
      | Some s \<Rightarrow> (if s = [] then removeEmptyValues kvs else (k, s) # removeEmptyValues kvs))"

text \<open>
  \<open>getUserGitMetadata\<close>, with \<open>normalizeRef\<close> of \<open>./utils\<close> (not among the sources) as a
  parameter and the process environment as a map. The two \<open>if\<close> statements run in the
  order of the source: first \<open>DD_GIT_TAG\<close>, then the test of \<open>DD_GIT_BRANCH\<close> for the
  substrings \<open>origin/tags\<close> and \<open>refs/heads/tags\<close>.
\<close>

definition getUserGitMetadata ::
  "(string option \<Rightarrow> string option) \<Rightarrow> (string \<Rightarrow> string option) \<Rightarrow> (GitTag \<times> string) list"
  where
  "getUserGitMetadata normalizeRef env =
     (let DD_GIT_BRANCH = env ''DD_GIT_BRANCH'';
          DD_GIT_TAG = env ''DD_GIT_TAG'';
          branch = normalizeRef DD_GIT_BRANCH;
          tag = normalizeRef DD_GIT_TAG;
          branch = (if truthy DD_GIT_TAG then None else branch);
          isTagRef =
            (case DD_GIT_BRANCH of
               None \<Rightarrow> False
             | Some b \<Rightarrow> includesStr b ''origin/tags'' \<or> includesStr b ''refs/heads/tags'');
          branch = (if isTagRef then None else branch);
          tag = (if isTagRef then normalizeRef DD_GIT_BRANCH else tag)
      in removeEmptyValues
           [(GIT_REPOSITORY_URL, env ''DD_GIT_REPOSITORY_URL''),
            (GIT_BRANCH, branch),
            (GIT_SHA, env ''DD_GIT_COMMIT_SHA''),
            (GIT_TAG, tag),
            (GIT_COMMIT_MESSAGE, env ''DD_GIT_COMMIT_MESSAGE''),
            (GIT_COMMIT_COMMITTER_DATE, env ''DD_GIT_COMMIT_COMMITTER_DATE''),
            (GIT_COMMIT_COMMITTER_EMAIL, env ''DD_GIT_COMMIT_COMMITTER_EMAIL''),
            (GIT_COMMIT_COMMITTER_NAME, env ''DD_GIT_COMMIT_COMMITTER_NAME''),
            (GIT_COMMIT_AUTHOR_DATE, env ''DD_GIT_COMMIT_AUTHOR_DATE''),
            (GIT_COMMIT_AUTHOR_EMAIL, env ''DD_GIT_COMMIT_AUTHOR_EMAIL''),
            (GIT_COMMIT_AUTHOR_NAME, env ''DD_GIT_COMMIT_AUTHOR_NAME'')])"

text \<open>
  Modelled from the spec: \<open>normalizeRef\<close> of \<open>./utils\<close> is not among the sources. The
  specification says that a ref is stripped of a \<open>refs/heads/\<close> or \<open>origin/\<close> prefix, with
  \<open>normalizeRef("refs/heads/main") = "main"\<close> and
  \<open>normalizeRef("origin/feature/x") = "feature/x"\<close>. It is used for the concrete runs
  only; the theorem holds for every \<open>normalizeRef\<close>.
\<close>

definition normalizeRef :: "string option \<Rightarrow> string option" where
  "normalizeRef ref =
     (case ref of
        None \<Rightarrow> None
      | Some r \<Rightarrow>
          (if startsWith r ''refs/heads/'' then Some (drop (length ''refs/heads/'') r)
           else if startsWith r ''origin/'' then Some (drop (length ''origin/'') r)
           else Some r))"

text \<open>What \<open>removeEmptyValues\<close> leaves of a value.\<close>

definition emitted :: "string option \<Rightarrow> string option" where
  "emitted v = (if truthy v then v else None)"

text \<open>Environments for the concrete runs.\<close>

definition envOf :: "(string \<times> string) list \<Rightarrow> string \<Rightarrow> string option" where
  "envOf kvs = map_of kvs"

lemma startsWith_includesStr: "startsWith s p \<Longrightarrow> includesStr s p"
  by (cases s) (auto elim: startsWith.elims)

lemma startsWith_append: "startsWith s (p @ q) \<Longrightarrow> startsWith s p"
  by (induction s p rule: startsWith.induct) auto

lemma removeEmptyValues_fst: "k \<notin> fst ` set kvs \<Longrightarrow> map_of (removeEmptyValues kvs) k = None"
  by (induction kvs rule: removeEmptyValues.induct) (auto split: option.splits)

lemma map_of_removeEmptyValues:
  "distinct (map fst kvs) \<Longrightarrow>
   map_of (removeEmptyValues kvs) k = (case map_of kvs k of None \<Rightarrow> None | Some v \<Rightarrow> emitted v)"
  by (induction kvs rule: removeEmptyValues.induct)
    (auto simp: emitted_def truthy_def removeEmptyValues_fst split: option.splits)

lemma tag_prefix_includes:
  "startsWith b ''origin/tags/'' \<Longrightarrow> includesStr b ''origin/tags''"
  "startsWith b ''refs/heads/tags/'' \<Longrightarrow> includesStr b ''refs/heads/tags''"
  using startsWith_append [of b "''origin/tags''" "''/''"]
    startsWith_append [of b "''refs/heads/tags''" "''/''"]
  by (simp_all add: startsWith_includesStr)

text \<open>
  C7, as the claim states it, fails for the prefix \<open>refs/tags/\<close>: the source tests
  \<open>DD_GIT_BRANCH\<close> for the substrings \<open>origin/tags\<close> and \<open>refs/heads/tags\<close> only. With
  \<open>DD_GIT_BRANCH = refs/tags/v1.0\<close> and no \<open>DD_GIT_TAG\<close>, the branch is emitted and no tag
  is.
\<close>

theorem getUserGitMetadata_refs_tags_counterexample:
  "startsWith ''refs/tags/v1.0'' ''refs/tags/''
   \<and> getUserGitMetadata normalizeRef (envOf [(''DD_GIT_BRANCH'', ''refs/tags/v1.0'')])
     = [(GIT_BRANCH, ''refs/tags/v1.0'')]"
  by (simp add: getUserGitMetadata_def normalizeRef_def envOf_def truthy_def)

text \<open>
  C7, amended. A supplied \<open>DD_GIT_BRANCH\<close> that contains \<open>origin/tags\<close> or
  \<open>refs/heads/tags\<close>, so in particular one prefixed \<open>origin/tags/\<close> or \<open>refs/heads/tags/\<close>,
  is interpreted as a tag: no branch is emitted and the tag emitted is the normalised ref
  (when it is not empty). Whenever \<open>DD_GIT_TAG\<close> is supplied and not empty, no branch is
  emitted. Any other supplied ref, one prefixed \<open>refs/tags/\<close> among them, stays the branch
  when no \<open>DD_GIT_TAG\<close> is supplied.
\<close>

theorem getUserGitMetadata_tag_refs:
  "(env ''DD_GIT_BRANCH'' = Some b \<and> (includesStr b ''origin/tags'' \<or> includesStr b ''refs/heads/tags'')
      \<longrightarrow> map_of (getUserGitMetadata nr env) GIT_BRANCH = None
        \<and> map_of (getUserGitMetadata nr env) GIT_TAG = emitted (nr (Some b)))
   \<and> (env ''DD_GIT_BRANCH'' = Some b \<and> (startsWith b ''origin/tags/'' \<or> startsWith b ''refs/heads/tags/'')
      \<longrightarrow> map_of (getUserGitMetadata nr env) GIT_BRANCH = None
        \<and> map_of (getUserGitMetadata nr env) GIT_TAG = emitted (nr (Some b)))
   \<and> (truthy (env ''DD_GIT_TAG'') \<longrightarrow> map_of (getUserGitMetadata nr env) GIT_BRANCH = None)
   \<and> (env ''DD_GIT_BRANCH'' = Some b \<and> \<not> includesStr b ''origin/tags''
        \<and> \<not> includesStr b ''refs/heads/tags'' \<and> \<not> truthy (env ''DD_GIT_TAG'')
      \<longrightarrow> map_of (getUserGitMetadata nr env) GIT_BRANCH = emitted (nr (Some b))
        \<and> map_of (getUserGitMetadata nr env) GIT_TAG = emitted (nr (env ''DD_GIT_TAG'')))"
proof -
  have branch: "map_of (getUserGitMetadata nr env) GIT_BRANCH =
      (if (case env ''DD_GIT_BRANCH'' of None \<Rightarrow> False
           | Some b \<Rightarrow> includesStr b ''origin/tags'' \<or> includesStr b ''refs/heads/tags'')
       then None
       else if truthy (env ''DD_GIT_TAG'') then None else emitted (nr (env ''DD_GIT_BRANCH'')))"
    unfolding getUserGitMetadata_def Let_def
    by (subst map_of_removeEmptyValues) (simp_all add: emitted_def truthy_def)
  have tag: "map_of (getUserGitMetadata nr env) GIT_TAG =
      (if (case env ''DD_GIT_BRANCH'' of None \<Rightarrow> False
           | Some b \<Rightarrow> includesStr b ''origin/tags'' \<or> includesStr b ''refs/heads/tags'')
       then emitted (nr (env ''DD_GIT_BRANCH'')) else emitted (nr (env ''DD_GIT_TAG'')))"
    unfolding getUserGitMetadata_def Let_def
    by (subst map_of_removeEmptyValues) (simp_all add: emitted_def truthy_def)
  show ?thesis
    using tag_prefix_includes [of b]
    by (auto simp: branch tag)
qed

text \<open>
  \<open>DD_GIT_BRANCH = origin/tags/v1.0\<close> with \<open>DD_GIT_TAG = v2\<close>: the ref of the branch
  becomes the tag. \<open>DD_GIT_BRANCH = refs/heads/main\<close> alone stays the branch \<open>main\<close>.
\<close>

theorem getUserGitMetadata_tag_refs_witness:
  "includesStr ''origin/tags/v1.0'' ''origin/tags''
   \<and> startsWith ''origin/tags/v1.0'' ''origin/tags/''
   \<and> truthy (Some ''v2'')
   \<and> map_of (getUserGitMetadata normalizeRef
        (envOf [(''DD_GIT_BRANCH'', ''origin/tags/v1.0''), (''DD_GIT_TAG'', ''v2'')])) GIT_BRANCH = None
   \<and> map_of (getUserGitMetadata normalizeRef
        (envOf [(''DD_GIT_BRANCH'', ''origin/tags/v1.0''), (''DD_GIT_TAG'', ''v2'')])) GIT_TAG
     = Some ''tags/v1.0''
   \<and> \<not> includesStr ''refs/heads/main'' ''origin/tags''
   \<and> \<not> includesStr ''refs/heads/main'' ''refs/heads/tags''
   \<and> map_of (getUserGitMetadata normalizeRef (envOf [(''DD_GIT_BRANCH'', ''refs/heads/main'')]))
        GIT_BRANCH = Some ''main''
   \<and> map_of (getUserGitMetadata normalizeRef (envOf [(''DD_GIT_BRANCH'', ''refs/heads/main'')]))
        GIT_TAG = None"
  using getUserGitMetadata_tag_refs
    [of "envOf [(''DD_GIT_BRANCH'', ''origin/tags/v1.0''), (''DD_GIT_TAG'', ''v2'')]"
      "''origin/tags/v1.0''" normalizeRef]
    getUserGitMetadata_tag_refs
    [of "envOf [(''DD_GIT_BRANCH'', ''refs/heads/main'')]" "''refs/heads/main''" normalizeRef]
  by (simp add: envOf_def truthy_def emitted_def normalizeRef_def)

section \<open>URL templates\<close>

text \<open>
  Strings are lists of code units below 256. The class \<open>\s\<close> of a regular expression
  holds, among them, tab, line feed, vertical tab, form feed, carriage return, space and
  the no-break space; \<open>.\<close> matches every code unit but line feed and carriage return.
\<close>

definition isSpace :: "char \<Rightarrow> bool" where
  "isSpace c = (c \<in> {CHR 0x09, CHR 0x0A, CHR 0x0B, CHR 0x0C, CHR 0x0D, CHR 0x20, CHR 0xA0})"

definition isLineTerminator :: "char \<Rightarrow> bool" where
  "isLineTerminator c = (c = CHR 0x0A \<or> c = CHR 0x0D)"

text \<open>
  \<open>TEMPLATE_REGEX = /{{\s*([^{}]*?)\s*}}/g\<close>. After an opening \<open>{{\<close> the expression matches
  a run of code units other than braces that is closed by \<open>}}\<close>. \<open>placeholderBody\<close> reads
  the text after the opening braces and returns that run and the text after the closing
  braces. The group \<open>p1\<close> is the run without the white space at its two ends: the first
  \<open>\s*\<close> is greedy and the group is lazy.
\<close>

fun placeholderBody :: "string \<Rightarrow> (string \<times> string) option" where
  "placeholderBody [] = None"
| "placeholderBody (c # cs) =
     (if c = CHR ''}'' then
        (case cs of [] \<Rightarrow> None | d # rest \<Rightarrow> if d = CHR ''}'' then Some ([], rest) else None)
      else if c = CHR ''{'' then None
      else (case placeholderBody cs of
              None \<Rightarrow> None
            | Some (body, rest) \<Rightarrow> Some (c # body, rest)))"

definition trimSpaces :: "string \<Rightarrow> string" where
  "trimSpaces s = rev (dropWhile isSpace (rev (dropWhile isSpace s)))"

text \<open>The match of the expression at the start of a text, if there is one.\<close>

definition placeholderAt :: "string \<Rightarrow> (string \<times> string) option" where
  "placeholderAt s =
     (case s of
        c # d # cs \<Rightarrow> if c = CHR ''{'' \<and> d = CHR ''{'' then placeholderBody cs else None
      | _ \<Rightarrow> None)"

lemma placeholderBody_shorter:
  "placeholderBody s = Some (body, rest) \<Longrightarrow> length rest < length s"
  by (induction s arbitrary: body rest) (auto split: if_splits list.splits option.splits)

lemma placeholderAt_shorter:
  "placeholderAt s = Some (body, rest) \<Longrightarrow> length rest < length s"
  by (auto simp: placeholderAt_def split: list.splits if_splits dest: placeholderBody_shorter)

text \<open>
  A template context is an object made by an object literal: it has its own keys, kept
  as the list of the keys in their order with their values, a string or \<open>undefined\<close>
  (\<open>None\<close>), and it inherits the properties of \<open>Object.prototype\<close> (\<open>constructor\<close>,
  \<open>toString\<close> and the others, and whatever the running program has added). The inherited
  properties are a function from the name to the value, \<open>None\<close> for a name that is not
  inherited; a value that is not a string, such as a function, is kept as the string it
  converts to.
\<close>

type_synonym Prototype = "string \<Rightarrow> string option option"

record TemplateContext =
  own :: "(string \<times> string option) list"
  inherited :: Prototype

text \<open>
  \<open>key in context\<close> looks at the own keys and at the inherited ones; \<open>context[key]\<close> reads
  the own property first. \<open>context.key = value\<close> sets an own property.
\<close>

definition hasProperty :: "TemplateContext \<Rightarrow> string \<Rightarrow> bool" where
  "hasProperty context key = (map_of (own context) key \<noteq> None \<or> inherited context key \<noteq> None)"

definition getProperty :: "TemplateContext \<Rightarrow> string \<Rightarrow> string option" where
  "getProperty context key =
     (case map_of (own context) key of
        Some v \<Rightarrow> v
      | None \<Rightarrow> (case inherited context key of Some v \<Rightarrow> v | None \<Rightarrow> None))"

text \<open>
  A replacement that is \<open>undefined\<close> is converted to the string \<open>undefined\<close> by
  \<open>String.prototype.replace\<close>.
\<close>

definition stringOf :: "string option \<Rightarrow> string" where
  "stringOf v = (case v of None \<Rightarrow> ''undefined'' | Some s \<Rightarrow> s)"

text \<open>The replacer \<open>(match, p1) => (p1 in context ? context[p1] : match)\<close>.\<close>

definition replacer :: "TemplateContext \<Rightarrow> string \<Rightarrow> string \<Rightarrow> string" where
  "replacer context match p1 =
     (if hasProperty context p1 then stringOf (getProperty context p1) else match)"

text \<open>
  \<open>template(st, context) = st.replace(TEMPLATE_REGEX, (match, p1) => (p1 in context ? context[p1] : match))\<close>:
  the matches are found from left to right, each search starting after the previous
  match.
\<close>

function template :: "string \<Rightarrow> TemplateContext \<Rightarrow> string" where
  "template [] context = []"
| "template (c # cs) context =
     (case placeholderAt (c # cs) of
        None \<Rightarrow> c # template cs context
      | Some (body, rest) \<Rightarrow>
          replacer context (''{{'' @ body @ ''}}'') (trimSpaces body) @ template rest context)"
  by pat_completeness auto
termination
  by (relation "measure (\<lambda>(s, context). length s)") (auto dest: placeholderAt_shorter)

section \<open>Override resolver\<close>

text \<open>
  The calls made on the main reporter are collected in the order they are made. The
  hooks of the main reporter are taken to return.
\<close>

datatype ReporterCall =
  ErrorCall string
| InitErrorsCall "string list"
| LogCall string
| TestTriggerCall InternalTest string ExecutionRule ConfigOverride
| TestWaitCall InternalTest
| TestsWaitCall "InternalTest list"

text \<open>
  The parts of a parsed \<open>URL\<close> object the engine reads. The parser itself, \<open>new URL(url)\<close>
  of the platform, is a parameter \<open>parseURL\<close>: \<open>None\<close> when the constructor throws.
\<close>

record URL =
  hash :: string
  host :: string
  hostname :: string
  origin :: string
  search :: string
  pathname :: string
  port :: string
  protocol :: string

text \<open>
  \<open>SUBDOMAIN_REGEX = /(.*?)\.(?=[^\/]*\..{2,5})/\<close>. \<open>tldAhead\<close> is the lookahead
  \<open>[^\/]*\..{2,5}\<close>: after code units other than \<open>/\<close>, a dot followed by at least two code
  units that are not line terminators. \<open>lazyGroup\<close> is the match from one start position:
  the lazy group grows by one code unit, never over a line terminator, until a dot with
  the lookahead follows; it returns the group. \<open>subdomainMatch\<close> tries the start positions
  from the left, as \<open>hostname.match\<close> does, and returns group 1 of the first match.
\<close>

fun tldAhead :: "string \<Rightarrow> bool" where
  "tldAhead [] = False"
| "tldAhead (c # cs) =
     ((c = CHR ''.'' \<and>
        (case cs of
           a # b # rest \<Rightarrow> \<not> isLineTerminator a \<and> \<not> isLineTerminator b
         | _ \<Rightarrow> False))
      \<or> (c \<noteq> CHR ''/'' \<and> tldAhead cs))"

fun lazyGroup :: "string \<Rightarrow> string option" where
  "lazyGroup [] = None"
| "lazyGroup (c # cs) =
     (if c = CHR ''.'' \<and> tldAhead cs then Some []
      else if isLineTerminator c then None
      else (case lazyGroup cs of None \<Rightarrow> None | Some g \<Rightarrow> Some (c # g)))"

fun subdomainMatch :: "string \<Rightarrow> string option" where
  "subdomainMatch [] = None"
| "subdomainMatch (c # cs) =
     (case lazyGroup (c # cs) of Some g \<Rightarrow> Some g | None \<Rightarrow> subdomainMatch cs)"

text \<open>\<open>s.replace(pattern, replacement)\<close> for a pattern that is a string: the first occurrence.\<close>

fun replaceFirst :: "string \<Rightarrow> string \<Rightarrow> string \<Rightarrow> string" where
  "replaceFirst [] pattern replacement = (if pattern = [] then replacement else [])"
| "replaceFirst (c # cs) pattern replacement =
     (if startsWith (c # cs) pattern then replacement @ drop (length pattern) (c # cs)
      else c # replaceFirst cs pattern replacement)"

text \<open>Assignment to a property of an object: an own key keeps its place.\<close>

fun setKey :: "string \<Rightarrow> 'v \<Rightarrow> (string \<times> 'v) list \<Rightarrow> (string \<times> 'v) list" where
  "setKey k v [] = [(k, v)]"
| "setKey k v ((k', v') # kvs) =
     (if k' = k then (k, v) # kvs else (k', v') # setKey k v kvs)"

definition URL_VARIABLES :: "string list" where
  "URL_VARIABLES =
     [''DOMAIN'', ''HASH'', ''HOST'', ''HOSTNAME'', ''ORIGIN'', ''PARAMS'', ''PATHNAME'', ''PORT'',
      ''PROTOCOL'', ''SUBDOMAIN'']"

definition warnOnReservedEnvVarNames :: "TemplateContext \<Rightarrow> ReporterCall list" where
  "warnOnReservedEnvVarNames context =
     (let usedEnvVarNames =
            filter (\<lambda>name. name \<in> set URL_VARIABLES) (map fst (own context))
      in if length usedEnvVarNames > 0 then
           (let names = join '', '' usedEnvVarNames;
                plural = (length usedEnvVarNames > 1)
            in [LogCall
                 (''Detected '' @ names @ '' environment variable'' @ (if plural then ''s'' else [])
                  @ ''. '' @ names @ '' '' @ (if plural then ''are'' else ''is a'') @ '' Datadog ''
                  @ ''reserved variable'' @ (if plural then ''s'' else [])
                  @ '' used to parse your original test URL, read more about it on ''
                  @ ''our documentation https://docs.datadoghq.com/synthetics/ci/?tab=apitest#start-url. ''
                  @ ''If you want to override your startUrl parameter using environment variables, ''
                  @ ''use '' @ (if plural then [] else ''a '') @ ''different namespace''
                  @ (if plural then ''s'' else []) @ ''.'' @ [CHR 0x0A, CHR 0x0A])])
         else [])"

definition assign :: "string \<Rightarrow> string option \<Rightarrow> TemplateContext \<Rightarrow> TemplateContext" where
  "assign key v context = context\<lparr>own := setKey key v (own context)\<rparr>"

text \<open>
  \<open>parseUrlVariables\<close>, with the process environment as the list of its variables and
  \<open>Object.prototype\<close> of the platform as a parameter. The context
  \<open>{...process.env, URL: url}\<close> has the variables of the environment and \<open>URL\<close> as its own
  keys. It returns the context and the calls made on the reporter.
\<close>

definition parseUrlVariables ::
  "(string \<Rightarrow> URL option) \<Rightarrow> Prototype \<Rightarrow> (string \<times> string) list \<Rightarrow> string \<Rightarrow>
   TemplateContext \<times> ReporterCall list" where
  "parseUrlVariables parseURL objectPrototype env url =
     (let context =
            \<lparr>own = setKey ''URL'' (Some url) (map (\<lambda>(k, v). (k, Some v)) env),
             inherited = objectPrototype\<rparr>
      in case parseURL url of
           None \<Rightarrow>
             (context,
              [ErrorCall (''The start url '' @ url
                 @ '' contains variables, CI overrides will be ignored'' @ [CHR 0x0A])])
         | Some objUrl \<Rightarrow>
             (let calls = warnOnReservedEnvVarNames context;
                  subdomainMatched = subdomainMatch (hostname objUrl);
                  domain =
                    (case subdomainMatched of
                       Some g \<Rightarrow> replaceFirst (hostname objUrl) (g @ ''.'') []
                     | None \<Rightarrow> hostname objUrl);
                  context = assign ''DOMAIN'' (Some domain) context;
                  context = assign ''HASH'' (Some (hash objUrl)) context;
                  context = assign ''HOST'' (Some (host objUrl)) context;
                  context = assign ''HOSTNAME'' (Some (hostname objUrl)) context;
                  context = assign ''ORIGIN'' (Some (origin objUrl)) context;
                  context = assign ''PARAMS'' (Some (search objUrl)) context;
                  context = assign ''PATHNAME'' (Some (pathname objUrl)) context;
                  context = assign ''PORT'' (Some (port objUrl)) context;
                  context = assign ''PROTOCOL'' (Some (protocol objUrl)) context;
                  context = assign ''SUBDOMAIN'' subdomainMatched context
              in (context, calls)))"

text \<open>
  Modelled from the spec: \<open>pick\<close> of \<open>../../helpers/utils\<close> is not among the sources. The
  specification says that the recognised option keys are picked from the override and
  unknown keys are discarded. Of the keys \<open>handleConfig\<close> lists, \<open>pollingTimeout\<close> is a
  field of the override record; the others are among \<open>otherOptions\<close>.
\<close>

definition pickedKeys :: "string list" where
  "pickedKeys =
     [''allowInsecureCertificates'', ''basicAuth'', ''body'', ''bodyType'', ''cookies'',
      ''defaultStepTimeout'', ''deviceIds'', ''followRedirects'', ''headers'', ''locations'',
      ''pollingTimeout'', ''retry'', ''startUrlSubstitutionRegex'', ''tunnel'', ''variables'']"

definition pick :: "(string \<times> string) list \<Rightarrow> string list \<Rightarrow> (string \<times> string) list" where
  "pick base keys = filter (\<lambda>(k, v). k \<in> set keys) base"

text \<open>\<open>Object.keys(config).length\<close>\<close>

definition keyCount :: "ConfigOverride \<Rightarrow> nat" where
  "keyCount config =
     (if ConfigOverride.executionRule config = None then 0 else 1)
     + (if ConfigOverride.pollingTimeout config = None then 0 else 1)
     + (if ConfigOverride.startUrl config = None then 0 else 1)
     + length (otherOptions config)"

text \<open>
  \<open>handleConfig\<close>. It returns the payload and the calls made on the reporter. The test
  \<open>config.startUrl\<close> is one of truthiness: an empty \<open>startUrl\<close> is not rendered.
\<close>

definition handleConfig ::
  "(string \<Rightarrow> URL option) \<Rightarrow> Prototype \<Rightarrow> (string \<times> string) list \<Rightarrow> InternalTest \<Rightarrow> string \<Rightarrow>
   ConfigOverride option \<Rightarrow> TestPayload \<times> ReporterCall list" where
  "handleConfig parseURL objectPrototype env test publicId config =
     (let rule = getExecutionRule test config;
          handledConfig =
            \<lparr>TestPayload.executionRule = rule, TestPayload.public_id = publicId,
             TestPayload.pollingTimeout = None, TestPayload.startUrl = None, overrides = []\<rparr>
      in case config of
           None \<Rightarrow> (handledConfig, [])
         | Some cfg \<Rightarrow>
             if keyCount cfg = 0 then (handledConfig, [])
             else
               (let handledConfig =
                      handledConfig
                        \<lparr>TestPayload.pollingTimeout := ConfigOverride.pollingTimeout cfg,
                         overrides := pick (otherOptions cfg) pickedKeys\<rparr>
                in case ConfigOverride.startUrl cfg of
                     None \<Rightarrow> (handledConfig, [])
                   | Some configStartUrl \<Rightarrow>
                       if (type test = ''browser'' \<or> subtype test = Some ''http'')
                          \<and> configStartUrl \<noteq> []
                       then
                         (let (context, calls) = parseUrlVariables parseURL objectPrototype env (request_url test);
                              calls =
                                calls @
                                (if list_ex (\<lambda>v. includesStr configStartUrl v) URL_VARIABLES
                                 then [ErrorCall
                                   (''[DEPRECATION] The usage of URL variables is deprecated, ''
                                    @ ''see explanation in the README'' @ [CHR 0x0A, CHR 0x0A])]
                                 else [])
                          in (handledConfig
                                \<lparr>TestPayload.startUrl := Some (template configStartUrl context)\<rparr>,
                              calls))
                       else (handledConfig, [])))"

section \<open>Rendering of placeholders\<close>

lemma placeholderBody_closed:
  "\<forall>c \<in> set body. c \<noteq> CHR ''{'' \<and> c \<noteq> CHR ''}'' \<Longrightarrow>
   placeholderBody (body @ ''}}'' @ post) = Some (body, post)"
  by (induction body) auto

lemma placeholderBody_open:
  "placeholderBody (s @ CHR ''{'' # t) =
     (case placeholderBody s of None \<Rightarrow> None | Some (b, r) \<Rightarrow> Some (b, r @ CHR ''{'' # t))"
proof (induction s)
  case Nil
  show ?case by simp
next
  case (Cons c cs)
  show ?case
  proof (cases "c = CHR ''}''")
    case True
    then show ?thesis by (cases cs) simp_all
  next
    case False
    show ?thesis
    proof (cases "c = CHR ''{''")
      case True
      then show ?thesis by simp
    next
      case notopen: False
      show ?thesis
        using False notopen Cons.IH by (cases "placeholderBody cs") auto
    qed
  qed
qed

lemma placeholderAt_open:
  "s \<noteq> [] \<Longrightarrow> placeholderAt (s @ CHR ''{'' # CHR ''{'' # t) =
     (case placeholderAt s of None \<Rightarrow> None | Some (b, r) \<Rightarrow> Some (b, r @ CHR ''{'' # CHR ''{'' # t))"
proof (cases s)
  case Nil
  assume "s \<noteq> []"
  with Nil show ?thesis by simp
next
  case (Cons c cs)
  show ?thesis
  proof (cases cs)
    case Nil
    with Cons show ?thesis by (simp add: placeholderAt_def)
  next
    case (Cons d ds)
    with \<open>s = c # cs\<close> show ?thesis
      using placeholderBody_open [of ds "CHR ''{'' # t"]
      by (simp add: placeholderAt_def)
  qed
qed

lemma template_Cons_None:
  "placeholderAt (c # cs) = None \<Longrightarrow> template (c # cs) ctx = c # template cs ctx"
  by simp

lemma template_Cons_Some:
  "placeholderAt (c # cs) = Some (b, r) \<Longrightarrow>
   template (c # cs) ctx = replacer ctx (''{{'' @ b @ ''}}'') (trimSpaces b) @ template r ctx"
  by simp

lemma template_placeholder:
  assumes "\<forall>c \<in> set body. c \<noteq> CHR ''{'' \<and> c \<noteq> CHR ''}''"
  shows "template (pre @ ''{{'' @ body @ ''}}'' @ post) ctx =
     template pre ctx
     @ replacer ctx (''{{'' @ body @ ''}}'') (trimSpaces body)
     @ template post ctx"
proof (induction pre ctx rule: template.induct)
  case (1 ctx)
  have "placeholderAt (CHR ''{'' # CHR ''{'' # body @ ''}}'' @ post) = Some (body, post)"
    using placeholderBody_closed [OF assms, of post] by (simp add: placeholderAt_def)
  from template_Cons_Some [OF this, of ctx] show ?case
    by (simp del: template.simps(2))
next
  case (2 c cs ctx)
  note opened = placeholderAt_open [of "c # cs" "body @ ''}}'' @ post"]
  show ?case
  proof (cases "placeholderAt (c # cs)")
    case None
    then have "placeholderAt (c # cs @ ''{{'' @ body @ ''}}'' @ post) = None"
      using opened by simp
    from template_Cons_None [OF this, of ctx] template_Cons_None [OF None, of ctx] 2(1) [OF None]
    show ?thesis by (simp del: template.simps(2))
  next
    case (Some br)
    obtain b r where br: "br = (b, r)" by (cases br)
    have s1: "placeholderAt (c # cs) = Some (b, r)" using Some br by simp
    have "placeholderAt (c # cs @ ''{{'' @ body @ ''}}'' @ post)
        = Some (b, r @ ''{{'' @ body @ ''}}'' @ post)"
      using opened s1 by simp
    from template_Cons_Some [OF this, of ctx] template_Cons_Some [OF s1, of ctx]
      2(2) [OF Some br [symmetric]]
    show ?thesis by (simp del: template.simps(2))
  qed
qed

lemma map_of_setKey: "map_of (setKey k v kvs) k' = (if k' = k then Some v else map_of kvs k')"
  by (induction kvs) auto

lemma own_assign:
  "map_of (own (assign k v context)) k' = (if k' = k then Some v else map_of (own context) k')"
  by (simp add: assign_def map_of_setKey)

lemma inherited_assign: "inherited (assign k v context) = inherited context"
  by (simp add: assign_def)

lemma parseUrlVariables_SUBDOMAIN:
  "parseURL url = Some u \<Longrightarrow>
   map_of (own (fst (parseUrlVariables parseURL objectPrototype env url))) ''SUBDOMAIN''
     = Some (subdomainMatch (hostname u))"
  by (simp add: parseUrlVariables_def Let_def own_assign)

lemma parseUrlVariables_inherited:
  "inherited (fst (parseUrlVariables parseURL objectPrototype env url)) = objectPrototype"
  by (simp add: parseUrlVariables_def Let_def inherited_assign split: option.splits)

lemma replacer_own:
  "map_of (own context) p1 = Some v \<Longrightarrow> replacer context match p1 = stringOf v"
  by (simp add: replacer_def hasProperty_def getProperty_def)

lemma handleConfig_startUrl:
  "(type test = ''browser'' \<or> subtype test = Some ''http'') \<Longrightarrow>
   ConfigOverride.startUrl cfg = Some s \<Longrightarrow> s \<noteq> [] \<Longrightarrow>
   TestPayload.startUrl
     (fst (handleConfig parseURL objectPrototype env test publicId (Some cfg))) =
     Some (template s (fst (parseUrlVariables parseURL objectPrototype env (request_url test))))"
  by (simp add: handleConfig_def keyCount_def Let_def split: prod.splits)

text \<open>
  A browser test of a local server, whose host has no subdomain, with an override whose
  \<open>startUrl\<close> uses \<open>{{SUBDOMAIN}}\<close>, a name that no context holds, and a name that every
  object inherits. The prototype of the run has the one property \<open>toString\<close>.
\<close>

definition localUrl :: URL where
  "localUrl =
     \<lparr>hash = [], host = ''localhost:3000'', hostname = ''localhost'',
      origin = ''http://localhost:3000'', search = [], pathname = ''/'', port = ''3000'',
      protocol = ''http:''\<rparr>"

definition parseLocal :: "string \<Rightarrow> URL option" where
  "parseLocal url = (if url = ''http://localhost:3000/'' then Some localUrl else None)"

definition localPrototype :: Prototype where
  "localPrototype name =
     (if name = ''toString'' then Some (Some ''function toString() { [native code] }'')
      else None)"

definition localTest :: InternalTest where
  "localTest =
     \<lparr>type = ''browser'', subtype = None, request_url = ''http://localhost:3000/'',
      options = None, suite = None\<rparr>"

definition subdomainOverride :: ConfigOverride where
  "subdomainOverride =
     \<lparr>ConfigOverride.executionRule = None, ConfigOverride.pollingTimeout = None,
      ConfigOverride.startUrl = Some ''http://{{SUBDOMAIN}}.x/{{FOO}}/{{toString}}'',
      otherOptions = []\<rparr>"

text \<open>
  C10. When \<open>config.request.url\<close> of the test parses, the context built by
  \<open>parseUrlVariables\<close> holds the key \<open>SUBDOMAIN\<close> as an own key, whose value is the
  subdomain or, when the host has none, \<open>undefined\<close>. In the latter case a
  \<open>{{SUBDOMAIN}}\<close> anywhere in a rendered text is replaced by the string \<open>undefined\<close>. The
  \<open>startUrl\<close> of the payload of a browser or http test is the override's \<open>startUrl\<close>
  rendered in this context. In any context, a placeholder is left verbatim when its name
  is not \<open>in\<close> the context, neither an own key nor inherited, and only then: when the name
  is \<open>in\<close> the context the placeholder is replaced by the value read under the name,
  converted to a string.
\<close>

theorem SUBDOMAIN_always_in_context:
  assumes "parseURL (request_url test) = Some objUrl"
  shows
    "map_of (own (fst (parseUrlVariables parseURL objectPrototype env (request_url test))))
         ''SUBDOMAIN''
       = Some (subdomainMatch (hostname objUrl))
     \<and> hasProperty (fst (parseUrlVariables parseURL objectPrototype env (request_url test)))
         ''SUBDOMAIN''
     \<and> (subdomainMatch (hostname objUrl) = None \<longrightarrow>
          template (pre @ ''{{SUBDOMAIN}}'' @ post)
            (fst (parseUrlVariables parseURL objectPrototype env (request_url test)))
          = template pre (fst (parseUrlVariables parseURL objectPrototype env (request_url test)))
            @ ''undefined''
            @ template post
                (fst (parseUrlVariables parseURL objectPrototype env (request_url test))))
     \<and> ((type test = ''browser'' \<or> subtype test = Some ''http'')
          \<and> ConfigOverride.startUrl cfg = Some s \<and> s \<noteq> [] \<longrightarrow>
          TestPayload.startUrl
            (fst (handleConfig parseURL objectPrototype env test publicId (Some cfg)))
          = Some (template s
                    (fst (parseUrlVariables parseURL objectPrototype env (request_url test)))))
     \<and> ((\<forall>c \<in> set name. c \<noteq> CHR ''{'' \<and> c \<noteq> CHR ''}'') \<longrightarrow>
          (\<not> hasProperty ctx (trimSpaces name) \<longrightarrow>
             template (pre @ ''{{'' @ name @ ''}}'' @ post) ctx
             = template pre ctx @ ''{{'' @ name @ ''}}'' @ template post ctx)
          \<and> (hasProperty ctx (trimSpaces name) \<longrightarrow>
             template (pre @ ''{{'' @ name @ ''}}'' @ post) ctx
             = template pre ctx @ stringOf (getProperty ctx (trimSpaces name))
               @ template post ctx))"
proof -
  let ?ctx = "fst (parseUrlVariables parseURL objectPrototype env (request_url test))"
  have key: "map_of (own ?ctx) ''SUBDOMAIN'' = Some (subdomainMatch (hostname objUrl))"
    using assms by (rule parseUrlVariables_SUBDOMAIN)
  then have isin: "hasProperty ?ctx ''SUBDOMAIN''"
    by (simp add: hasProperty_def)
  have sub: "template (pre @ ''{{SUBDOMAIN}}'' @ post) ?ctx
      = template pre ?ctx @ ''undefined'' @ template post ?ctx"
    if "subdomainMatch (hostname objUrl) = None"
  proof -
    have "template (pre @ ''{{'' @ ''SUBDOMAIN'' @ ''}}'' @ post) ?ctx
        = template pre ?ctx
          @ replacer ?ctx (''{{'' @ ''SUBDOMAIN'' @ ''}}'') (trimSpaces ''SUBDOMAIN'')
          @ template post ?ctx"
      by (rule template_placeholder) simp
    moreover have "trimSpaces ''SUBDOMAIN'' = ''SUBDOMAIN''"
      by (simp add: trimSpaces_def isSpace_def)
    moreover have "replacer ?ctx (''{{'' @ ''SUBDOMAIN'' @ ''}}'') ''SUBDOMAIN'' = ''undefined''"
      using replacer_own [OF key] that by (simp add: stringOf_def)
    ultimately show ?thesis
      by (simp del: template.simps(2))
  qed
  have start: "TestPayload.startUrl
        (fst (handleConfig parseURL objectPrototype env test publicId (Some cfg)))
      = Some (template s ?ctx)"
    if "type test = ''browser'' \<or> subtype test = Some ''http''"
      "ConfigOverride.startUrl cfg = Some s" "s \<noteq> []"
    using that by (rule handleConfig_startUrl)
  have verbatim: "template (pre @ ''{{'' @ name @ ''}}'' @ post) ctx
      = template pre ctx @ ''{{'' @ name @ ''}}'' @ template post ctx"
    if "\<forall>c \<in> set name. c \<noteq> CHR ''{'' \<and> c \<noteq> CHR ''}''" "\<not> hasProperty ctx (trimSpaces name)"
    using template_placeholder [OF that(1), of pre post ctx] that(2)
    by (simp add: replacer_def del: template.simps(2))
  have replaced: "template (pre @ ''{{'' @ name @ ''}}'' @ post) ctx
      = template pre ctx @ stringOf (getProperty ctx (trimSpaces name)) @ template post ctx"
    if "\<forall>c \<in> set name. c \<noteq> CHR ''{'' \<and> c \<noteq> CHR ''}''" "hasProperty ctx (trimSpaces name)"
    using template_placeholder [OF that(1), of pre post ctx] that(2)
    by (simp add: replacer_def del: template.simps(2))
  show ?thesis
    using key isin sub start verbatim replaced by blast
qed

text \<open>
  The local test: its URL parses, the host \<open>localhost\<close> has no subdomain, the key is in
  the context with the value \<open>undefined\<close>, and the rendered \<open>startUrl\<close> holds the string
  \<open>undefined\<close> in place of \<open>{{SUBDOMAIN}}\<close>, \<open>{{FOO}}\<close> as it is, and the text of the
  inherited \<open>toString\<close> in place of \<open>{{toString}}\<close>.
\<close>

theorem SUBDOMAIN_always_in_context_witness:
  "parseLocal (request_url localTest) = Some localUrl
   \<and> subdomainMatch (hostname localUrl) = None
   \<and> map_of (own (fst (parseUrlVariables parseLocal localPrototype [] (request_url localTest))))
       ''SUBDOMAIN'' = Some None
   \<and> TestPayload.startUrl
       (fst (handleConfig parseLocal localPrototype [] localTest ''abc-def-ghi''
          (Some subdomainOverride)))
     = Some ''http://undefined.x/{{FOO}}/function toString() { [native code] }''"
proof -
  let ?ctx = "fst (parseUrlVariables parseLocal localPrototype [] (request_url localTest))"
  have parsed: "parseLocal (request_url localTest) = Some localUrl"
    by (simp add: parseLocal_def localTest_def)
  have nomatch: "subdomainMatch (hostname localUrl) = None"
    by (simp add: localUrl_def isLineTerminator_def)
  have trims: "trimSpaces ''FOO'' = ''FOO''" "trimSpaces ''toString'' = ''toString''"
    by (simp_all add: trimSpaces_def isSpace_def)
  have own_foo: "map_of (own ?ctx) ''FOO'' = None" and own_str: "map_of (own ?ctx) ''toString'' = None"
    using parsed by (simp_all add: parseUrlVariables_def Let_def own_assign)
  have inh: "inherited ?ctx = localPrototype"
    by (rule parseUrlVariables_inherited)
  have foo: "\<not> hasProperty ?ctx (trimSpaces ''FOO'')"
    using own_foo inh by (simp add: trims hasProperty_def localPrototype_def)
  have str: "hasProperty ?ctx (trimSpaces ''toString'')"
    using inh by (simp add: trims hasProperty_def localPrototype_def)
  have strv: "stringOf (getProperty ?ctx (trimSpaces ''toString''))
      = ''function toString() { [native code] }''"
    using own_str inh by (simp add: trims getProperty_def localPrototype_def stringOf_def)
  have plain: "template ''http://'' ctx = ''http://''" "template ''.x/'' ctx = ''.x/''"
    "template ''/'' ctx = ''/''" "template [] ctx = []" for ctx
    by (simp_all add: placeholderAt_def)
  note a = SUBDOMAIN_always_in_context [where parseURL = parseLocal and test = localTest
      and objUrl = localUrl and objectPrototype = localPrototype and env = "[]"
      and cfg = subdomainOverride
      and s = "''http://{{SUBDOMAIN}}.x/{{FOO}}/{{toString}}''" and publicId = "''abc-def-ghi''"
      and pre = "''http://''" and post = "''.x/{{FOO}}/{{toString}}''" and name = "''FOO''"
      and ctx = ?ctx, OF parsed]
  note b = SUBDOMAIN_always_in_context [where parseURL = parseLocal and test = localTest
      and objUrl = localUrl and objectPrototype = localPrototype and env = "[]"
      and cfg = subdomainOverride
      and s = "''http://{{SUBDOMAIN}}.x/{{FOO}}/{{toString}}''" and publicId = "''abc-def-ghi''"
      and pre = "''.x/''" and post = "''/{{toString}}''" and name = "''FOO''"
      and ctx = ?ctx, OF parsed]
  note c = SUBDOMAIN_always_in_context [where parseURL = parseLocal and test = localTest
      and objUrl = localUrl and objectPrototype = localPrototype and env = "[]"
      and cfg = subdomainOverride
      and s = "''http://{{SUBDOMAIN}}.x/{{FOO}}/{{toString}}''" and publicId = "''abc-def-ghi''"
      and pre = "''/''" and post = "[]" and name = "''toString''"
      and ctx = ?ctx, OF parsed]
  have s2: "template ''/{{toString}}'' ?ctx = ''/function toString() { [native code] }''"
    using c str strv plain by (simp del: template.simps(2))
  have s1: "template ''.x/{{FOO}}/{{toString}}'' ?ctx
      = ''.x/{{FOO}}/function toString() { [native code] }''"
    using b foo s2 plain by (simp del: template.simps(2))
  have key: "map_of (own ?ctx) ''SUBDOMAIN'' = Some None"
    using a nomatch by simp
  have rendered: "TestPayload.startUrl
       (fst (handleConfig parseLocal localPrototype [] localTest ''abc-def-ghi''
          (Some subdomainOverride)))
     = Some ''http://undefined.x/{{FOO}}/function toString() { [native code] }''"
    using a nomatch s1 plain
    by (simp add: localTest_def subdomainOverride_def del: template.simps(2))
  show ?thesis
    using parsed nomatch key rendered by simp
qed

section \<open>Resolving the tests to trigger\<close>

record TriggerConfig =
  config :: ConfigOverride
  id' :: string
  suite :: "string option"










record TestsToTrigger =
  tests :: "InternalTest list"
  overriddenTestsToTrigger :: "TestPayload list"
  summary :: Summary




























section \<open>Polling engine\<close>

text \<open>
  A \<open>TriggerResult\<close> is a trigger response with its polling timeout and, once known, its
  result: \<open>{...triggerResponse, pollingTimeout}\<close>.
\<close>

record TriggerResult = TriggerResponse +
  pollingTimeout :: int
  result :: "PollResult option"

definition createFailingResult :: "ERRORS \<Rightarrow> string \<Rightarrow> string \<Rightarrow> int \<Rightarrow> bool \<Rightarrow> PollResult" where
  "createFailingResult errorMessage resultId deviceIdent dcId tunnelled =
     \<lparr>dc_id = dcId,
      PollResult.result =
        \<lparr>Result.device = Some \<lparr>height = 0, deviceId = deviceIdent, width = 0\<rparr>,
         duration = Some 0,
         Result.error = Some errorMessage,
         errorCode = None,
         eventType = ''finished'',
         Result.passed = Some False,
         Result.startUrl = Some [],
         stepDetails = [],
         tunnel = Some tunnelled,
         unhealthy = None\<rparr>,
      resultID = resultId,
      timestamp = 0\<rparr>"

text \<open>
  \<open>createTriggerResultMap\<close>. The object \<open>timeoutByPublicId\<close> is a map; the \<open>Map\<close> from result
  ids to trigger results is the list of its entries in insertion order, and \<open>Map.set\<close> on
  a key that is present replaces the value in place (\<open>setKey\<close>). The operator \<open>??\<close>
  takes the default for \<open>undefined\<close> only.
\<close>

definition timeoutByPublicId :: "int \<Rightarrow> TriggerConfig list \<Rightarrow> string \<Rightarrow> int option" where
  "timeoutByPublicId defaultTimeout triggerConfigs =
     foldl
       (\<lambda>m trigger.
          m(id' trigger \<mapsto>
            (case ConfigOverride.pollingTimeout (config trigger) of
               Some t \<Rightarrow> t
             | None \<Rightarrow> defaultTimeout)))
       Map.empty triggerConfigs"

definition timeoutFor :: "int \<Rightarrow> TriggerConfig list \<Rightarrow> string \<Rightarrow> int" where
  "timeoutFor defaultTimeout triggerConfigs publicId =
     (case timeoutByPublicId defaultTimeout triggerConfigs publicId of
        Some t \<Rightarrow> t
      | None \<Rightarrow> defaultTimeout)"

definition createTriggerResultMap ::
  "TriggerResponse list \<Rightarrow> int \<Rightarrow> TriggerConfig list \<Rightarrow> (string \<times> TriggerResult) list" where
  "createTriggerResultMap triggerResponses defaultTimeout triggerConfigs =
     foldl
       (\<lambda>triggerResultMap triggerResponse.
          setKey (result_id triggerResponse)
            (TriggerResponse.extend triggerResponse
               \<lparr>pollingTimeout =
                  timeoutFor defaultTimeout triggerConfigs
                    (TriggerResponse.public_id triggerResponse),
                result = None\<rparr>)
            triggerResultMap)
       [] triggerResponses"

text \<open>
  One iteration of the loop sees the outside world three times: it reads the clock, it
  reads the flag \<open>isTunnelConnected\<close> that the tunnel's \<open>keepAlive\<close> clears, and it awaits
  \<open>api.pollResults\<close>. A \<open>PollEvent\<close> holds what an iteration sees: the polling duration
  \<open>new Date().getTime() - pollingStartDate\<close>, the flag, and the outcome of the poll, a
  failure thrown or the results returned.
\<close>

record PollEvent =
  elapsed :: int
  isTunnelConnected :: bool
  polled :: "Failure + PollResult list"

text \<open>
  \<open>Math.max(...timeouts)\<close>: of no number it is \<open>-Infinity\<close>, which is \<open>None\<close>.
\<close>

fun maxPollingTimeout :: "int list \<Rightarrow> int option" where
  "maxPollingTimeout [] = None"
| "maxPollingTimeout (t # ts) =
     (case maxPollingTimeout ts of None \<Rightarrow> Some t | Some m \<Rightarrow> Some (max t m))"

definition reached :: "int \<Rightarrow> int option \<Rightarrow> bool" where
  "reached pollingDuration maxTimeout =
     (case maxTimeout of None \<Rightarrow> True | Some m \<Rightarrow> pollingDuration \<ge> m)"

text \<open>\<open>triggerResults.filter((tr) => !tr.result)\<close>\<close>

definition pending :: "(string \<times> TriggerResult) list \<Rightarrow> TriggerResult list" where
  "pending triggerResultMap = filter (\<lambda>tr. result tr = None) (map snd triggerResultMap)"

text \<open>
  The three loops that give the pending trigger results a failing result: those whose
  timeout is over (\<open>TIMEOUT\<close>), all of them when the tunnel is down (\<open>TUNNEL\<close>), all of
  them when the poll failed with a 5xx (\<open>ENDPOINT\<close>). The trigger results are objects
  shared by the map and the array: an assignment to \<open>result\<close> is an update of the entry.
\<close>

definition failIf ::
  "(TriggerResult \<Rightarrow> bool) \<Rightarrow> ERRORS \<Rightarrow> bool \<Rightarrow> (string \<times> TriggerResult) list \<Rightarrow>
   (string \<times> TriggerResult) list" where
  "failIf cond errorMessage tunnelled triggerResultMap =
     map (\<lambda>(k, tr).
            if result tr = None \<and> cond tr then
              (k, tr\<lparr>result := Some (createFailingResult errorMessage (result_id tr)
                     (TriggerResponse.device tr) (location tr) tunnelled)\<rparr>)
            else (k, tr))
       triggerResultMap"

text \<open>
  The loop over the polled results: a finished result is attached to the trigger result
  the map holds for its \<open>resultID\<close>, if there is one.
\<close>

fun attach :: "PollResult list \<Rightarrow> (string \<times> TriggerResult) list \<Rightarrow> (string \<times> TriggerResult) list"
  where
  "attach [] triggerResultMap = triggerResultMap"
| "attach (polledResult # polledResults) triggerResultMap =
     attach polledResults
       (if eventType (PollResult.result polledResult) = ''finished'' then
          (case map_of triggerResultMap (resultID polledResult) of
             Some triggeredResult \<Rightarrow>
               setKey (resultID polledResult) (triggeredResult\<lparr>result := Some polledResult\<rparr>)
                 triggerResultMap
           | None \<Rightarrow> triggerResultMap)
        else triggerResultMap)"

text \<open>
  How a run of the loop ends: it returns, it throws, or it is still waiting for the next
  iteration when the events given are used up.
\<close>

datatype 'a run = Returned 'a | Threw exn | Waiting

text \<open>
  The loop of \<open>waitForResults\<close>. \<open>tunnelled\<close> is \<open>!!tunnel\<close>, and \<open>is5xxError\<close> of \<open>./api\<close> is
  a parameter. An iteration that does not leave the loop awaits \<open>wait(POLLING_INTERVAL)\<close>
  and goes on with the next event.
\<close>

fun pollLoop ::
  "bool \<Rightarrow> bool \<Rightarrow> (Failure \<Rightarrow> bool) \<Rightarrow> int option \<Rightarrow> PollEvent list \<Rightarrow>
   (string \<times> TriggerResult) list \<Rightarrow> (string \<times> TriggerResult) list run" where
  "pollLoop tunnelled failOnCriticalErrors is5xxError maxTimeout [] triggerResultMap =
     (if pending triggerResultMap = [] then Returned triggerResultMap else Waiting)"
| "pollLoop tunnelled failOnCriticalErrors is5xxError maxTimeout (ev # evs) triggerResultMap =
     (if pending triggerResultMap = [] then Returned triggerResultMap
      else
        (let pollingDuration = elapsed ev;
             m = failIf (\<lambda>tr. pollingDuration \<ge> pollingTimeout tr) TIMEOUT tunnelled
                   triggerResultMap;
             m = (if tunnelled \<and> \<not> isTunnelConnected ev
                  then failIf (\<lambda>tr. True) TUNNEL tunnelled m else m)
         in if reached pollingDuration maxTimeout then Returned m
            else
              (case polled ev of
                 Inl e \<Rightarrow>
                   if is5xxError e \<and> \<not> failOnCriticalErrors then
                     (let m = attach [] (failIf (\<lambda>tr. True) ENDPOINT tunnelled m)
                      in if pending m = [] then Returned m
                         else pollLoop tunnelled failOnCriticalErrors is5xxError maxTimeout evs m)
                   else Threw (Rethrown e)
               | Inr polledResults \<Rightarrow>
                   (let m = attach polledResults m
                    in if pending m = [] then Returned m
                       else pollLoop tunnelled failOnCriticalErrors is5xxError maxTimeout evs m))))"

text \<open>
  The bundling by public id. \<open>resultsByPublicId\<close> is the list of the entries of the object
  in insertion order. The non-null assertion \<open>triggerResult.result!\<close> is erased at run
  time: a result that is absent would be stored as \<open>undefined\<close>, which is \<open>None\<close>.
\<close>

definition bundleByPublicId :: "TriggerResult list \<Rightarrow> (string \<times> PollResult option list) list" where
  "bundleByPublicId triggerResults =
     foldl
       (\<lambda>resultsByPublicId triggerResult.
          setKey (TriggerResponse.public_id triggerResult)
            ((case map_of resultsByPublicId (TriggerResponse.public_id triggerResult) of
                Some rs \<Rightarrow> rs
              | None \<Rightarrow> [])
             @ [result triggerResult])
            resultsByPublicId)
       [] triggerResults"

definition waitForResults ::
  "(Failure \<Rightarrow> bool) \<Rightarrow> PollEvent list \<Rightarrow> TriggerResponse list \<Rightarrow> int \<Rightarrow> TriggerConfig list \<Rightarrow>
   bool \<Rightarrow> bool \<Rightarrow> (string \<times> PollResult option list) list run" where
  "waitForResults is5xxError events triggerResponses defaultTimeout triggerConfigs tunnelled
     failOnCriticalErrors =
     (let triggerResultMap = createTriggerResultMap triggerResponses defaultTimeout triggerConfigs;
          triggerResults = map snd triggerResultMap;
          maxTimeout = maxPollingTimeout (map pollingTimeout triggerResults)
      in case pollLoop tunnelled failOnCriticalErrors is5xxError maxTimeout events
                triggerResultMap of
           Returned m \<Rightarrow> Returned (bundleByPublicId (map snd m))
         | Threw e \<Rightarrow> Threw e
         | Waiting \<Rightarrow> Waiting)"

subsection \<open>What the loop keeps\<close>

text \<open>
  The loop changes the field \<open>result\<close> of the trigger results and nothing else: the keys
  of the map, and the public id, result id and polling timeout of every entry stay
  (\<open>frame\<close>). Every key is the result id of its entry, and a result that is present
  carries the key as its \<open>resultID\<close> (\<open>consistent\<close>).
\<close>

definition frame :: "(string \<times> TriggerResult) list \<Rightarrow> (string \<times> string \<times> string \<times> int) list" where
  "frame m =
     map (\<lambda>(k, tr). (k, TriggerResponse.public_id tr, result_id tr, pollingTimeout tr)) m"













lemma pending_failIf_all: "pending (failIf (\<lambda>tr. True) e t m) = []"
  by (induction m) (auto simp: pending_def failIf_def)

lemma pending_failIf_none:
  "pending m = [] \<Longrightarrow> failIf cond e t m = m"
  by (induction m) (auto simp: pending_def failIf_def split: if_splits)


text \<open>
  The trigger results as they are when the poll is sent: after the timeouts and the
  check of the tunnel.
\<close>

definition beforePoll ::
  "bool \<Rightarrow> PollEvent \<Rightarrow> (string \<times> TriggerResult) list \<Rightarrow> (string \<times> TriggerResult) list" where
  "beforePoll tunnelled ev m =
     (let m = failIf (\<lambda>tr. elapsed ev \<ge> pollingTimeout tr) TIMEOUT tunnelled m
      in if tunnelled \<and> \<not> isTunnelConnected ev then failIf (\<lambda>tr. True) TUNNEL tunnelled m
         else m)"

lemma pollLoop_Cons:
  "pollLoop tun foce is5xx mx (ev # evs) m =
     (if pending m = [] then Returned m
      else if reached (elapsed ev) mx then Returned (beforePoll tun ev m)
      else
        (case polled ev of
           Inl e \<Rightarrow>
             if is5xx e \<and> \<not> foce
             then Returned (failIf (\<lambda>tr. True) ENDPOINT tun (beforePoll tun ev m))
             else Threw (Rethrown e)
         | Inr prs \<Rightarrow>
             if pending (attach prs (beforePoll tun ev m)) = []
             then Returned (attach prs (beforePoll tun ev m))
             else pollLoop tun foce is5xx mx evs (attach prs (beforePoll tun ev m))))"
  by (simp add: beforePoll_def Let_def pending_failIf_all split: sum.splits)

declare pollLoop.simps(2) [simp del]






subsection \<open>The map at the start and the bundling at the end\<close>


definition initialResult :: "int \<Rightarrow> TriggerConfig list \<Rightarrow> TriggerResponse \<Rightarrow> TriggerResult" where
  "initialResult defaultTimeout triggerConfigs triggerResponse =
     TriggerResponse.extend triggerResponse
       \<lparr>pollingTimeout =
          timeoutFor defaultTimeout triggerConfigs (TriggerResponse.public_id triggerResponse),
        result = None\<rparr>"

lemma initialResult_fields:
  "result_id (initialResult d tcs tr) = result_id tr"
  "TriggerResponse.public_id (initialResult d tcs tr) = TriggerResponse.public_id tr"
  "pollingTimeout (initialResult d tcs tr) = timeoutFor d tcs (TriggerResponse.public_id tr)"
  "result (initialResult d tcs tr) = None"
  by (simp_all add: initialResult_def TriggerResponse.defs)





subsection \<open>Concrete runs\<close>

text \<open>
  Modelled from the spec: \<open>is5xxError\<close> of \<open>./api\<close> is not among the sources. The
  specification speaks of a failure classified as server-5xx: the status of the response
  is between 500 and 599. It is used for the concrete runs only; the theorems hold for
  every classifier.
\<close>

definition is5xxStatus :: "Failure \<Rightarrow> bool" where
  "is5xxStatus e =
     (case response e of
        None \<Rightarrow> False
      | Some r \<Rightarrow> (case status r of None \<Rightarrow> False | Some s \<Rightarrow> 500 \<le> s \<and> s \<le> 599))"

definition badGateway :: Failure where
  "badGateway = \<lparr>response = Some \<lparr>status = Some 502\<rparr>, message = ''Bad Gateway''\<rparr>"

definition responseOf :: "string \<Rightarrow> string \<Rightarrow> TriggerResponse" where
  "responseOf publicId resultId =
     \<lparr>device = ''chrome.laptop_large'', location = 1, TriggerResponse.public_id = publicId,
      result_id = resultId\<rparr>"


definition pollOf :: "int \<Rightarrow> Failure + PollResult list \<Rightarrow> PollEvent" where
  "pollOf t outcome = \<lparr>elapsed = t, isTunnelConnected = True, polled = outcome\<rparr>"



lemma frame_initial:
  "frame (map (\<lambda>tr. (result_id tr, initialResult d tcs tr)) trs) =
     map (\<lambda>tr. (result_id tr, TriggerResponse.public_id tr, result_id tr,
                timeoutFor d tcs (TriggerResponse.public_id tr))) trs"
  by (simp add: frame_def initialResult_fields)










subsection \<open>A poll that fails\<close>

lemma failIf_all_entries:
  "list_all2
     (\<lambda>(k, tr) (k', tr').
        k' = k \<and>
        (if result tr = None
         then tr' = tr\<lparr>result := Some (createFailingResult e (result_id tr)
                    (TriggerResponse.device tr) (location tr) t)\<rparr>
         else tr' = tr))
     m (failIf (\<lambda>tr. True) e t m)"
  by (induction m) (auto simp: failIf_def)

lemma createFailingResult_fields:
  "Result.error (PollResult.result (createFailingResult e rid dev loc t)) = Some e"
  "Result.passed (PollResult.result (createFailingResult e rid dev loc t)) = Some False"
  "eventType (PollResult.result (createFailingResult e rid dev loc t)) = ''finished''"
  "timestamp (createFailingResult e rid dev loc t) = 0"
  "resultID (createFailingResult e rid dev loc t) = rid"
  by (simp_all add: createFailingResult_def)

text \<open>
  C5. In an iteration that polls (some trigger result is pending and the polling
  duration is below the maximum), when the poll fails: if the failure is a 5xx and
  \<open>failOnCriticalErrors\<close> is false, the loop ends and returns, and every trigger result
  that was pending when the poll was sent has the result synthesized by
  \<open>createFailingResult\<close> with the error \<open>ENDPOINT\<close>, \<open>passed = false\<close>, the event type
  \<open>finished\<close> and the timestamp 0, the other trigger results being unchanged; in every
  other case the failure is thrown as it is. \<open>waitForResults\<close> throws what its loop
  throws.
\<close>

theorem pollLoop_poll_failure:
  assumes "pending m \<noteq> []" and "\<not> reached (elapsed ev) mx" and "polled ev = Inl e"
  shows
    "(is5xx e \<and> \<not> foce \<longrightarrow>
        pollLoop tun foce is5xx mx (ev # evs) m
          = Returned (failIf (\<lambda>tr. True) ENDPOINT tun (beforePoll tun ev m))
        \<and> list_all2
            (\<lambda>(k, tr) (k', tr').
               k' = k \<and>
               (if result tr = None
                then tr' = tr\<lparr>result := Some (createFailingResult ENDPOINT (result_id tr)
                           (TriggerResponse.device tr) (location tr) tun)\<rparr>
                else tr' = tr))
            (beforePoll tun ev m) (failIf (\<lambda>tr. True) ENDPOINT tun (beforePoll tun ev m)))
     \<and> (\<not> (is5xx e \<and> \<not> foce) \<longrightarrow>
        pollLoop tun foce is5xx mx (ev # evs) m = Threw (Rethrown e))
     \<and> Result.error (PollResult.result (createFailingResult ENDPOINT rid dev loc tun))
         = Some ENDPOINT
     \<and> Result.passed (PollResult.result (createFailingResult ENDPOINT rid dev loc tun))
         = Some False
     \<and> eventType (PollResult.result (createFailingResult ENDPOINT rid dev loc tun)) = ''finished''
     \<and> timestamp (createFailingResult ENDPOINT rid dev loc tun) = 0
     \<and> (pollLoop tun' foce' is5xx'
           (maxPollingTimeout (map pollingTimeout (map snd (createTriggerResultMap trs d tcs))))
           evs' (createTriggerResultMap trs d tcs) = Threw x \<longrightarrow>
         waitForResults is5xx' evs' trs d tcs tun' foce' = Threw x)"
proof -
  have swallowed: "pollLoop tun foce is5xx mx (ev # evs) m
      = Returned (failIf (\<lambda>tr. True) ENDPOINT tun (beforePoll tun ev m))"
    if "is5xx e \<and> \<not> foce"
    using assms that by (simp add: pollLoop_Cons)
  have thrown: "pollLoop tun foce is5xx mx (ev # evs) m = Threw (Rethrown e)"
    if "\<not> (is5xx e \<and> \<not> foce)"
    using assms that by (simp add: pollLoop_Cons)
  have passed_on: "waitForResults is5xx' evs' trs d tcs tun' foce' = Threw x"
    if "pollLoop tun' foce' is5xx'
           (maxPollingTimeout (map pollingTimeout (map snd (createTriggerResultMap trs d tcs))))
           evs' (createTriggerResultMap trs d tcs) = Threw x"
    using that by (simp add: waitForResults_def Let_def)
  show ?thesis
    using swallowed thrown passed_on
      failIf_all_entries [of ENDPOINT tun "beforePoll tun ev m"]
    by (simp add: createFailingResult_fields)
qed

text \<open>
  Scenario S5 of the specification: two trigger results are pending and the first poll
  fails with a 502. With \<open>failOnCriticalErrors = false\<close> the invocation returns the two
  \<open>ENDPOINT\<close> results; with \<open>failOnCriticalErrors = true\<close> it throws the failure.
\<close>

definition pendingTwo :: "TriggerResponse list" where
  "pendingTwo = [responseOf ''aaa-aaa-aaa'' ''R1'', responseOf ''bbb-bbb-bbb'' ''R2'']"

definition endpointResults :: "(string \<times> PollResult option list) list" where
  "endpointResults =
     [(''aaa-aaa-aaa'', [Some (createFailingResult ENDPOINT ''R1'' ''chrome.laptop_large'' 1 False)]),
      (''bbb-bbb-bbb'', [Some (createFailingResult ENDPOINT ''R2'' ''chrome.laptop_large'' 1 False)])]"

lemma pendingTwo_map:
  "createTriggerResultMap pendingTwo 60000 [] =
     [(''R1'', initialResult 60000 [] (responseOf ''aaa-aaa-aaa'' ''R1'')),
      (''R2'', initialResult 60000 [] (responseOf ''bbb-bbb-bbb'' ''R2''))]"
  by (simp add: createTriggerResultMap_def pendingTwo_def responseOf_def initialResult_def)

theorem pollLoop_poll_failure_witness:
  "pending (createTriggerResultMap pendingTwo 60000 []) \<noteq> []
   \<and> \<not> reached (elapsed (pollOf 0 (Inl badGateway))) (Some 60000)
   \<and> is5xxStatus badGateway
   \<and> waitForResults is5xxStatus [pollOf 0 (Inl badGateway)] pendingTwo 60000 [] False False
       = Returned endpointResults
   \<and> waitForResults is5xxStatus [pollOf 0 (Inl badGateway)] pendingTwo 60000 [] False True
       = Threw (Rethrown badGateway)"
proof -
  let ?m = "createTriggerResultMap pendingTwo 60000 []"
  let ?ev = "pollOf 0 (Inl badGateway)"
  have p: "pending ?m \<noteq> []"
    by (simp add: pendingTwo_map pending_def initialResult_fields)
  have r: "\<not> reached (elapsed ?ev) (Some 60000)"
    by (simp add: reached_def pollOf_def)
  have f: "polled ?ev = Inl badGateway"
    by (simp add: pollOf_def)
  have five: "is5xxStatus badGateway"
    by (simp add: is5xxStatus_def badGateway_def)
  have mx: "maxPollingTimeout (map pollingTimeout (map snd ?m)) = Some 60000"
    by (simp add: pendingTwo_map initialResult_fields timeoutFor_def timeoutByPublicId_def)
  note swallow = pollLoop_poll_failure [OF p r f, of is5xxStatus False False "[]"]
  note throw = pollLoop_poll_failure [OF p r f, of is5xxStatus True False "[]" _ _ _ False True
      is5xxStatus pendingTwo 60000 "[]" "[?ev]" "Rethrown badGateway"]
  have loop1: "pollLoop False False is5xxStatus (Some 60000) [?ev] ?m
      = Returned (failIf (\<lambda>tr. True) ENDPOINT False (beforePoll False ?ev ?m))"
    using swallow five by simp
  have loop2: "pollLoop False True is5xxStatus (Some 60000) [?ev] ?m = Threw (Rethrown badGateway)"
    using throw by simp
  have run2: "waitForResults is5xxStatus [?ev] pendingTwo 60000 [] False True
      = Threw (Rethrown badGateway)"
    using throw loop2 mx by simp
  have run1: "waitForResults is5xxStatus [?ev] pendingTwo 60000 [] False False
      = Returned endpointResults"
    unfolding waitForResults_def Let_def mx loop1
    by (simp add: pendingTwo_map beforePoll_def failIf_def pollOf_def initialResult_def
        responseOf_def TriggerResponse.defs timeoutFor_def timeoutByPublicId_def
        bundleByPublicId_def endpointResults_def)
  show ?thesis using p r five run1 run2 by simp
qed

end
